theory Spec2Isabelle
  imports Main "HOL-Library.Sublist" "HOL-Library.Word"
begin

unbundle bit_operations_syntax

section \<open>Strings\<close>

text \<open>
  A Python \<open>str\<close> is a sequence of Unicode code points; \<open>len\<close>, slicing and
  \<open>in\<close> all count code points. Text that comes from feeds is therefore a list of
  code points. Identifiers the program compares against ASCII literals only
  (queue status, publication type, setting keys and values) are plain strings.
\<close>

type_synonym pystr = "nat list"

definition ascii :: "string \<Rightarrow> pystr" where
  "ascii s = map of_char s"

text \<open>\<open>kw in text\<close> on Python strings: \<open>kw\<close> occurs as a contiguous run.\<close>

definition str_in :: "pystr \<Rightarrow> pystr \<Rightarrow> bool" where
  "str_in kw t = sublist kw t"

text \<open>\<open>s.replace(a, b)\<close> for single characters \<open>a\<close> and \<open>b\<close>.\<close>

definition replace_char :: "nat \<Rightarrow> nat \<Rightarrow> pystr \<Rightarrow> pystr" where
  "replace_char a b s = map (\<lambda>c. if c = a then b else c) s"

text \<open>\<open>sep.join(parts)\<close>.\<close>

fun str_join :: "pystr \<Rightarrow> pystr list \<Rightarrow> pystr" where
  "str_join sep [] = []"
| "str_join sep [x] = x"
| "str_join sep (x # y # ys) = x @ sep @ str_join sep (y # ys)"

text \<open>\<open>str(i)\<close> for an integer: its decimal digits, with a sign when negative.\<close>

fun digits :: "nat \<Rightarrow> nat \<Rightarrow> pystr" where
  "digits 0 n = []"
| "digits (Suc k) n = (if n < 10 then [48 + n] else digits k (n div 10) @ [48 + n mod 10])"

definition str_of_int :: "int \<Rightarrow> pystr" where
  "str_of_int i = (if i < 0 then ascii ''-'' @ digits (nat (- i)) (nat (- i)) else digits (Suc (nat i)) (nat i))"

text \<open>
  The built-in and third-party text operations the program calls (\<open>str\<close>, \<open>re\<close>,
  \<open>urllib.parse\<close>, BeautifulSoup) and the two configuration values they depend on.
  They are parameters of the model:
  \<^item> \<open>str_lower\<close> is \<open>str.lower\<close>;
  \<^item> \<open>urlparse_netloc url\<close> is \<open>urlparse(url).netloc\<close>, or \<open>Inl\<close> the text of the
    exception \<open>urlparse\<close> raises;
  \<^item> \<open>soup_text html\<close> is \<open>BeautifulSoup(html, 'html.parser').get_text()\<close>;
  \<^item> \<open>collapse_ws s\<close> is \<open>re.sub(r'\s+', ' ', s).strip()\<close>;
  \<^item> \<open>split_sentences s\<close> is \<open>re.split(r'[.!?]+', s)\<close>;
  \<^item> \<open>typography_subs\<close> is the chain of \<open>re.sub\<close> calls of \<open>_fix_typography\<close>, and
    \<open>markdown_subs\<close> the chain of \<open>_clean_markdown\<close> with its final \<open>strip\<close>;
  \<^item> \<open>soup_markdown\<close> is the conversion of \<open>_html_to_markdown\<close>, which handles its
    own exceptions;
  \<^item> \<open>utm_on\<close> is \<open>settings.utm_on\<close> and \<open>with_utm url\<close> the URL rebuilt by
    \<open>_add_utm_parameters\<close>, which returns \<open>url\<close> itself when rebuilding raises;
  \<^item> \<open>strip_tracking url\<close> is the URL rebuilt by \<open>_normalize_image_url\<close>;
  \<^item> \<open>find_words s\<close> is \<open>re.findall(r'\b\w+\b', s)\<close>.
\<close>

record textlib =
  str_lower :: "pystr \<Rightarrow> pystr"
  urlparse_netloc :: "pystr \<Rightarrow> pystr + pystr"
  soup_text :: "pystr \<Rightarrow> pystr"
  collapse_ws :: "pystr \<Rightarrow> pystr"
  split_sentences :: "pystr \<Rightarrow> pystr list"
  typography_subs :: "pystr \<Rightarrow> pystr"
  markdown_subs :: "pystr \<Rightarrow> pystr"
  soup_markdown :: "pystr \<Rightarrow> pystr"
  utm_on :: bool
  with_utm :: "pystr \<Rightarrow> pystr"
  strip_tracking :: "pystr \<Rightarrow> pystr"
  find_words :: "pystr \<Rightarrow> pystr list"

section \<open>Feed items\<close>

text \<open>\<open>ingest.FeedItem\<close>. A publication time is seconds on the UTC clock.\<close>

record feed_item =
  guid :: pystr
  title :: pystr
  link :: pystr
  published_at :: "int option"
  summary :: pystr
  content :: pystr
  image_url :: "pystr option"
  tags :: "pystr list"
  author :: pystr
  feed_url :: pystr
  feed_title :: pystr

text \<open>
  The dictionary the normalizer works on: the keys of \<open>FeedItem.to_dict\<close>, the
  \<open>feed_id\<close> the scheduler adds, and the keys \<open>normalize_item\<close> sets, which are
  absent (\<open>None\<close>) until it sets them.
\<close>

record item_dict = feed_item +
  feed_id :: nat
  content_hash :: "pystr option"
  hashtags :: "pystr list option"
  lang :: "pystr option"
  word_count :: "nat option"

definition to_dict :: "feed_item \<Rightarrow> nat \<Rightarrow> item_dict" where
  "to_dict fi fid =
     \<lparr>guid = guid fi, title = title fi, link = link fi, published_at = published_at fi,
      summary = summary fi, content = content fi, image_url = image_url fi, tags = tags fi,
      author = author fi, feed_url = feed_url fi, feed_title = feed_title fi,
      feed_id = fid, content_hash = None, hashtags = None, lang = None, word_count = None\<rparr>"

section \<open>Content fingerprint\<close>

text \<open>
  \<open>SecurityManager.hash_content\<close> is \<open>hashlib.sha256(content.encode('utf-8')).hexdigest()\<close>.
  Both steps are written out: the UTF-8 encoding of a sequence of code points, which
  raises \<open>UnicodeEncodeError\<close> on a surrogate, and SHA-256 as in FIPS 180-4.
\<close>

type_synonym byte = "8 word"

definition utf8_char :: "nat \<Rightarrow> byte list option" where
  "utf8_char c =
     (if c < 0x80 then Some [of_nat c]
      else if c < 0x800 then Some [of_nat (0xC0 + c div 64), of_nat (0x80 + c mod 64)]
      else if 0xD800 \<le> c \<and> c \<le> 0xDFFF then None
      else if c < 0x10000 then
        Some [of_nat (0xE0 + c div 4096), of_nat (0x80 + c div 64 mod 64), of_nat (0x80 + c mod 64)]
      else if c < 0x110000 then
        Some [of_nat (0xF0 + c div 262144), of_nat (0x80 + c div 4096 mod 64),
              of_nat (0x80 + c div 64 mod 64), of_nat (0x80 + c mod 64)]
      else None)"

fun utf8_encode :: "pystr \<Rightarrow> byte list option" where
  "utf8_encode [] = Some []"
| "utf8_encode (c # cs) =
     (case utf8_char c of
        None \<Rightarrow> None
      | Some bs \<Rightarrow> (case utf8_encode cs of None \<Rightarrow> None | Some rest \<Rightarrow> Some (bs @ rest)))"

definition ch :: "32 word \<Rightarrow> 32 word \<Rightarrow> 32 word \<Rightarrow> 32 word" where
  "ch x y z = (x AND y) XOR (NOT x AND z)"

definition maj :: "32 word \<Rightarrow> 32 word \<Rightarrow> 32 word \<Rightarrow> 32 word" where
  "maj x y z = (x AND y) XOR (x AND z) XOR (y AND z)"

definition bsig0 :: "32 word \<Rightarrow> 32 word" where
  "bsig0 x = word_rotr 2 x XOR word_rotr 13 x XOR word_rotr 22 x"

definition bsig1 :: "32 word \<Rightarrow> 32 word" where
  "bsig1 x = word_rotr 6 x XOR word_rotr 11 x XOR word_rotr 25 x"

definition ssig0 :: "32 word \<Rightarrow> 32 word" where
  "ssig0 x = word_rotr 7 x XOR word_rotr 18 x XOR drop_bit 3 x"

definition ssig1 :: "32 word \<Rightarrow> 32 word" where
  "ssig1 x = word_rotr 17 x XOR word_rotr 19 x XOR drop_bit 10 x"

text \<open>
  The round constants (the first 32 bits of the fractional parts of the cube roots of
  the first 64 primes) and the initial hash value (of the square roots of the first
  8 primes), in decimal.
\<close>

definition sha256_k :: "32 word list" where
  "sha256_k =
     [1116352408, 1899447441, 3049323471, 3921009573,
      961987163, 1508970993, 2453635748, 2870763221,
      3624381080, 310598401, 607225278, 1426881987,
      1925078388, 2162078206, 2614888103, 3248222580,
      3835390401, 4022224774, 264347078, 604807628,
      770255983, 1249150122, 1555081692, 1996064986,
      2554220882, 2821834349, 2952996808, 3210313671,
      3336571891, 3584528711, 113926993, 338241895,
      666307205, 773529912, 1294757372, 1396182291,
      1695183700, 1986661051, 2177026350, 2456956037,
      2730485921, 2820302411, 3259730800, 3345764771,
      3516065817, 3600352804, 4094571909, 275423344,
      430227734, 506948616, 659060556, 883997877,
      958139571, 1322822218, 1537002063, 1747873779,
      1955562222, 2024104815, 2227730452, 2361852424,
      2428436474, 2756734187, 3204031479, 3329325298]"

type_synonym sha_state =
  "32 word \<times> 32 word \<times> 32 word \<times> 32 word \<times> 32 word \<times> 32 word \<times> 32 word \<times> 32 word"

definition sha256_init :: sha_state where
  "sha256_init =
     (1779033703, 3144134277, 1013904242, 2773480762, 1359893119, 2600822924, 528734635, 1541459225)"

text \<open>The message with the padding: a one bit, zeros, and the bit length in 64 bits.\<close>

definition be_bytes :: "64 word \<Rightarrow> byte list" where
  "be_bytes n = map (\<lambda>i. ucast (drop_bit (8 * i) n)) [7, 6, 5, 4, 3, 2, 1, 0]"

definition sha256_pad :: "byte list \<Rightarrow> byte list" where
  "sha256_pad m =
     m @ [0x80] @ replicate ((64 - (length m + 9) mod 64) mod 64) 0 @
     be_bytes (of_nat (8 * length m))"

fun be_words :: "byte list \<Rightarrow> 32 word list" where
  "be_words (a # b # c # d # bs) =
     (push_bit 24 (ucast a) OR push_bit 16 (ucast b) OR push_bit 8 (ucast c) OR ucast d) # be_words bs"
| "be_words bs = []"

text \<open>The message schedule: \<open>n\<close> more words after the ones in \<open>ws\<close>.\<close>

fun schedule :: "nat \<Rightarrow> 32 word list \<Rightarrow> 32 word list" where
  "schedule 0 ws = ws"
| "schedule (Suc n) ws =
     (let t = length ws
      in schedule n
           (ws @ [ssig1 (ws ! (t - 2)) + ws ! (t - 7) + ssig0 (ws ! (t - 15)) + ws ! (t - 16)]))"

definition sha_round :: "32 word \<times> 32 word \<Rightarrow> sha_state \<Rightarrow> sha_state" where
  "sha_round kw s =
     (case s of (a, b, c, d, e, f, g, h) \<Rightarrow>
        (let t1 = h + bsig1 e + ch e f g + fst kw + snd kw;
             t2 = bsig0 a + maj a b c
         in (t1 + t2, a, b, c, d + t1, e, f, g)))"

definition sha_add :: "sha_state \<Rightarrow> sha_state \<Rightarrow> sha_state" where
  "sha_add s s' =
     (case s of (a, b, c, d, e, f, g, h) \<Rightarrow>
      case s' of (a', b', c', d', e', f', g', h') \<Rightarrow>
        (a + a', b + b', c + c', d + d', e + e', f + f', g + g', h + h'))"

definition sha_block :: "32 word list \<Rightarrow> sha_state \<Rightarrow> sha_state" where
  "sha_block ws s = sha_add s (fold sha_round (zip sha256_k (schedule 48 ws)) s)"

text \<open>The 512-bit blocks of the padded message, as 16 words each.\<close>

fun blocks :: "nat \<Rightarrow> 32 word list \<Rightarrow> 32 word list list" where
  "blocks 0 ws = []"
| "blocks (Suc n) ws = take 16 ws # blocks n (drop 16 ws)"

definition sha256 :: "byte list \<Rightarrow> sha_state" where
  "sha256 m =
     (let ws = be_words (sha256_pad m)
      in fold sha_block (blocks (length ws div 16) ws) sha256_init)"

definition hex_digit :: "nat \<Rightarrow> nat" where
  "hex_digit n = (if n < 10 then 48 + n else 87 + n)"

definition hex_word :: "32 word \<Rightarrow> pystr" where
  "hex_word x = map (\<lambda>i. hex_digit (unat (drop_bit (4 * i) x AND 15))) [7, 6, 5, 4, 3, 2, 1, 0]"

definition hexdigest :: "sha_state \<Rightarrow> pystr" where
  "hexdigest s =
     (case s of (a, b, c, d, e, f, g, h) \<Rightarrow>
        hex_word a @ hex_word b @ hex_word c @ hex_word d @
        hex_word e @ hex_word f @ hex_word g @ hex_word h)"

text \<open>\<open>hash_content\<close>; \<open>None\<close> when the encoding raises.\<close>

definition hash_content :: "pystr \<Rightarrow> pystr option" where
  "hash_content s = map_option (\<lambda>m. hexdigest (sha256 m)) (utf8_encode s)"

text \<open>
  The text of the \<open>UnicodeEncodeError\<close> that \<open>encode\<close> raises: it names the first
  run of surrogates, by the character and its position when the run is a single
  one, by the range of positions otherwise.
\<close>

definition is_surrogate :: "nat \<Rightarrow> bool" where
  "is_surrogate c \<longleftrightarrow> 0xD800 \<le> c \<and> c \<le> 0xDFFF"

definition encode_error_text :: "pystr \<Rightarrow> pystr" where
  "encode_error_text s =
     (let start = length (takeWhile (\<lambda>c. \<not> is_surrogate c) s);
          run = takeWhile is_surrogate (drop start s)
      in [39] @ ascii ''utf-8'' @ [39] @ ascii '' codec can'' @ [39] @ ascii ''t encode '' @
         (case run of
            [c] \<Rightarrow>
              ascii ''character '' @ [39, 92, 117] @
              map (\<lambda>i. hex_digit (c div 16 ^ i mod 16)) [3, 2, 1, 0] @ [39] @
              ascii '' in position '' @ str_of_int (int start)
          | _ \<Rightarrow>
              ascii ''characters in position '' @ str_of_int (int start) @ ascii ''-'' @
              str_of_int (int (start + length run) - 1)) @
         ascii '': surrogates not allowed'')"

section \<open>Normalizer\<close>

definition remove_html_tags :: "textlib \<Rightarrow> pystr \<Rightarrow> pystr" where
  "remove_html_tags L html = (if html = [] then [] else soup_text L html)"

definition fix_typography :: "textlib \<Rightarrow> pystr \<Rightarrow> pystr" where
  "fix_typography L t = (if t = [] then [] else typography_subs L t)"

definition normalize_title :: "textlib \<Rightarrow> pystr \<Rightarrow> pystr" where
  "normalize_title L t =
     (if t = [] then []
      else let t1 = collapse_ws L (remove_html_tags L t);
               t2 = (if length t1 > 200 then take 197 t1 @ ascii ''...'' else t1)
           in fix_typography L t2)"

definition normalize_summary :: "textlib \<Rightarrow> pystr \<Rightarrow> pystr" where
  "normalize_summary L s =
     (if s = [] then []
      else let s1 = collapse_ws L (remove_html_tags L s);
               sentences = split_sentences L s1;
               s2 = (if length sentences > 3
                     then str_join (ascii ''. '') (take 3 sentences) @ ascii ''.'' else s1)
           in if length s2 > 300 then take 297 s2 @ ascii ''...'' else s2)"

definition html_to_markdown :: "textlib \<Rightarrow> pystr \<Rightarrow> pystr" where
  "html_to_markdown L html = (if html = [] then [] else soup_markdown L html)"

definition clean_markdown :: "textlib \<Rightarrow> pystr \<Rightarrow> pystr" where
  "clean_markdown L m = (if m = [] then [] else markdown_subs L m)"

definition normalize_content :: "textlib \<Rightarrow> pystr \<Rightarrow> pystr" where
  "normalize_content L c =
     (if c = [] then []
      else let c1 = clean_markdown L (html_to_markdown L c)
           in if length c1 > 2000 then take 1997 c1 @ ascii ''...'' else c1)"

definition add_utm_parameters :: "textlib \<Rightarrow> pystr \<Rightarrow> pystr" where
  "add_utm_parameters L url = (if url = [] \<or> \<not> utm_on L then url else with_utm L url)"

definition normalize_image_url :: "textlib \<Rightarrow> pystr option \<Rightarrow> pystr option" where
  "normalize_image_url L u =
     (case u of
        None \<Rightarrow> None
      | Some url \<Rightarrow>
          if url = [] then None
          else if \<not> prefix (ascii ''http'') url then None
          else Some (strip_tracking L url))"

text \<open>
  \<open>_detect_language\<close>: the lower-cased text has more Cyrillic letters (code points
  1072 to 1103, and 1105) or more Latin letters; a tie is Russian.
\<close>

definition detect_language :: "textlib \<Rightarrow> pystr \<Rightarrow> pystr" where
  "detect_language L t =
     (if t = [] then ascii ''ru''
      else let low = str_lower L t;
               cyrillic_count = length (filter (\<lambda>c. (1072 \<le> c \<and> c \<le> 1103) \<or> c = 1105) low);
               latin_count = length (filter (\<lambda>c. 97 \<le> c \<and> c \<le> 122) low)
           in if cyrillic_count > latin_count then ascii ''ru''
              else if latin_count > cyrillic_count then ascii ''en''
              else ascii ''ru'')"

definition count_words :: "textlib \<Rightarrow> pystr \<Rightarrow> nat" where
  "count_words L t = (if t = [] then 0 else length (find_words L (remove_html_tags L t)))"

subsection \<open>Hashtags\<close>

text \<open>
  \<open>common_tags\<close> of \<open>_generate_hashtags\<close>, in the dictionary's insertion order, which
  is the order the loop visits it. Non-ASCII words are written as code points.
\<close>

definition common_tags :: "(pystr \<times> pystr list) list" where
  "common_tags = [
       ([1085, 1086, 1074, 1086, 1089, 1090, 1080],
         [[1085, 1086, 1074, 1086, 1089, 1090, 1080],
          [1085, 1086, 1074, 1086, 1089, 1090, 1100],
          [1085, 1086, 1074, 1086, 1089, 1090, 1077, 1081]]),
       ([1090, 1077, 1093, 1085, 1086, 1083, 1086, 1075, 1080, 1080],
         [[1090, 1077, 1093, 1085, 1086, 1083, 1086, 1075, 1080, 1080],
          [1090, 1077, 1093, 1085, 1086, 1083, 1086, 1075, 1080, 1103],
          ascii ''tech'',
          ascii ''technology'']),
       (ascii ''ai'',
         [[1080, 1089, 1082, 1091, 1089, 1089, 1090, 1074, 1077, 1085, 1085, 1099, 1081, 32, 1080, 1085, 1090, 1077, 1083, 1083, 1077, 1082, 1090],
          ascii ''ai'',
          ascii ''artificial intelligence'',
          [1084, 1072, 1096, 1080, 1085, 1085, 1086, 1077, 32, 1086, 1073, 1091, 1095, 1077, 1085, 1080, 1077]]),
       (ascii ''telegram'',
         [ascii ''telegram'',
          [1090, 1077, 1083, 1077, 1075, 1088, 1072, 1084]]),
       ([1087, 1088, 1086, 1075, 1088, 1072, 1084, 1084, 1080, 1088, 1086, 1074, 1072, 1085, 1080, 1077],
         [[1087, 1088, 1086, 1075, 1088, 1072, 1084, 1084, 1080, 1088, 1086, 1074, 1072, 1085, 1080, 1077],
          [1082, 1086, 1076],
          [1088, 1072, 1079, 1088, 1072, 1073, 1086, 1090, 1082, 1072],
          ascii ''coding'']),
       ([1082, 1088, 1080, 1087, 1090, 1086, 1074, 1072, 1083, 1102, 1090, 1072],
         [[1082, 1088, 1080, 1087, 1090, 1086, 1074, 1072, 1083, 1102, 1090, 1072],
          [1073, 1080, 1090, 1082, 1086, 1080, 1085],
          ascii ''blockchain'',
          ascii ''crypto'']),
       ([1080, 1075, 1088, 1099],
         [[1080, 1075, 1088, 1099],
          ascii ''game'',
          ascii ''gaming'']),
       ([1092, 1080, 1085, 1072, 1085, 1089, 1099],
         [[1092, 1080, 1085, 1072, 1085, 1089, 1099],
          [1101, 1082, 1086, 1085, 1086, 1084, 1080, 1082, 1072],
          [1076, 1077, 1085, 1100, 1075, 1080],
          ascii ''finance'']),
       ([1089, 1087, 1086, 1088, 1090],
         [[1089, 1087, 1086, 1088, 1090],
          [1092, 1091, 1090, 1073, 1086, 1083],
          [1073, 1072, 1089, 1082, 1077, 1090, 1073, 1086, 1083],
          ascii ''sport'']),
       ([1087, 1086, 1083, 1080, 1090, 1080, 1082, 1072],
         [[1087, 1086, 1083, 1080, 1090, 1080, 1082, 1072],
          [1087, 1086, 1083, 1080, 1090, 1080, 1082],
          [1075, 1086, 1089, 1091, 1076, 1072, 1088, 1089, 1090, 1074, 1086]]),
       ([1085, 1072, 1091, 1082, 1072],
         [[1085, 1072, 1091, 1082, 1072],
          [1080, 1089, 1089, 1083, 1077, 1076, 1086, 1074, 1072, 1085, 1080, 1077],
          ascii ''science'']),
       ([1079, 1076, 1086, 1088, 1086, 1074, 1100, 1077],
         [[1079, 1076, 1086, 1088, 1086, 1074, 1100, 1077],
          [1084, 1077, 1076, 1080, 1094, 1080, 1085, 1072],
          ascii ''health'']),
       ([1086, 1073, 1088, 1072, 1079, 1086, 1074, 1072, 1085, 1080, 1077],
         [[1086, 1073, 1088, 1072, 1079, 1086, 1074, 1072, 1085, 1080, 1077],
          [1091, 1095, 1077, 1073, 1072],
          ascii ''education'']),
       ([1082, 1091, 1083, 1100, 1090, 1091, 1088, 1072],
         [[1082, 1091, 1083, 1100, 1090, 1091, 1088, 1072],
          [1080, 1089, 1082, 1091, 1089, 1089, 1090, 1074, 1086],
          ascii ''art'']),
       ([1087, 1091, 1090, 1077, 1096, 1077, 1089, 1090, 1074, 1080, 1103],
         [[1087, 1091, 1090, 1077, 1096, 1077, 1089, 1090, 1074, 1080, 1103],
          [1090, 1091, 1088, 1080, 1079, 1084],
          ascii ''travel''])
     ]"

text \<open>
  \<open>_extract_domain\<close>: the lower-cased network location without a leading \<open>www.\<close>;
  \<open>None\<close> for an empty URL and when \<open>urlparse\<close> raises.
\<close>

definition extract_domain :: "textlib \<Rightarrow> pystr \<Rightarrow> pystr option" where
  "extract_domain L url =
     (if url = [] then None
      else case urlparse_netloc L url of
             Inl e \<Rightarrow> None
           | Inr netloc \<Rightarrow>
               (let domain = str_lower L netloc
                in if prefix (ascii ''www.'') domain then Some (drop 4 domain)
                   else Some domain))"

text \<open>The keyword loop: one tag per category with at least one keyword in the text.\<close>

definition keyword_tags :: "pystr \<Rightarrow> pystr list" where
  "keyword_tags t =
     map (\<lambda>(tag, keywords). ascii ''#'' @ tag)
       (filter (\<lambda>(tag, keywords). list_ex (\<lambda>keyword. str_in keyword t) keywords) common_tags)"

definition domain_tags :: "textlib \<Rightarrow> pystr \<Rightarrow> pystr list" where
  "domain_tags L url =
     (case extract_domain L url of
        None \<Rightarrow> []
      | Some domain \<Rightarrow>
          (if domain = [] then []
           else [ascii ''#'' @ replace_char 45 95 (replace_char 46 95 domain)]))"

text \<open>The language tag; a dictionary without the key \<open>lang\<close> counts as Russian.\<close>

definition lang_tags :: "pystr option \<Rightarrow> pystr list" where
  "lang_tags l =
     (let lang = (case l of None \<Rightarrow> ascii ''ru'' | Some v \<Rightarrow> v)
      in if lang = ascii ''en'' then [ascii ''#english'']
         else if lang = ascii ''ru'' then [[35, 1088, 1091, 1089, 1089, 1082, 1080, 1081]]
         else [])"

text \<open>The text the keyword loop searches: title, summary and content, lower-cased.\<close>

definition hashtag_text :: "textlib \<Rightarrow> item_dict \<Rightarrow> pystr" where
  "hashtag_text L item =
     str_lower L (title item @ ascii '' '' @ summary item @ ascii '' '' @ content item)"

text \<open>The list \<open>hashtags\<close> as it stands before the final slice.\<close>

definition collected_hashtags :: "textlib \<Rightarrow> item_dict \<Rightarrow> pystr list" where
  "collected_hashtags L item =
     keyword_tags (hashtag_text L item) @ domain_tags L (link item) @ lang_tags (lang item)"

definition generate_hashtags :: "textlib \<Rightarrow> item_dict \<Rightarrow> pystr list" where
  "generate_hashtags L item = take 5 (collected_hashtags L item)"

subsection \<open>\<open>normalize_item\<close>\<close>

text \<open>
  The steps of \<open>normalize_item\<close> in order. Encoding the text for the fingerprint is
  the step that can raise; the handler then returns the dictionary as it stands,
  with the text fields and the link normalized and no \<open>content_hash\<close>.
\<close>

definition normalize_item :: "textlib \<Rightarrow> item_dict \<Rightarrow> item_dict" where
  "normalize_item L item =
     (let item1 = item\<lparr>title := normalize_title L (title item)\<rparr>;
          item2 = item1\<lparr>summary := normalize_summary L (summary item1)\<rparr>;
          item3 = item2\<lparr>content := normalize_content L (content item2)\<rparr>;
          item4 = item3\<lparr>link := add_utm_parameters L (link item3)\<rparr>;
          content_for_hash = title item4 @ summary item4 @ content item4
      in case hash_content content_for_hash of
           None \<Rightarrow> item4
         | Some h \<Rightarrow>
             (let item5 = item4\<lparr>content_hash := Some h\<rparr>;
                  item6 = item5\<lparr>hashtags := Some (generate_hashtags L item5)\<rparr>;
                  item7 = item6\<lparr>image_url := normalize_image_url L (image_url item6)\<rparr>;
                  item8 = item7\<lparr>lang := Some (detect_language L
                                     (title item7 @ ascii '' '' @ summary item7))\<rparr>
              in item8\<lparr>word_count := Some (count_words L (content item8))\<rparr>))"

section \<open>Persistent store\<close>

text \<open>
  The tables of \<open>database.py\<close> that the scheduler reads and writes. A table is the
  list of its rows in the order the store returns them for a query without
  \<open>ORDER BY\<close> (row order). Timestamps are seconds on the UTC clock. Column names
  shared between tables carry the table's initial as a suffix.
\<close>

record feed =
  id_fd :: nat
  url_fd :: pystr
  last_ok_at :: "int option"
  last_error_at :: "int option"
  last_error_msg :: "pystr option"
  enabled :: bool

record db_item =
  id_i :: nat
  feed_id_i :: nat
  guid_i :: pystr
  title_i :: pystr
  link_i :: pystr
  published_at_i :: "int option"
  content_hash_i :: pystr
  has_media_i :: bool
  summary_i :: "pystr option"
  content_i :: "pystr option"
  image_url_i :: "pystr option"
  tags_i :: "pystr list"
  created_at_i :: int

record queue_item =
  id_q :: nat
  item_id :: nat
  type_q :: string
  channel_id :: "string option"
  scheduled_at :: "int option"
  status :: string
  attempts :: int
  last_attempt_at :: "int option"
  error_msg :: "pystr option"
  created_at_q :: int

record publish =
  id_p :: nat
  item_id_p :: nat
  target :: string
  type_p :: string
  message_id :: "string option"
  posted_at :: int

text \<open>One call of \<open>TelegramPublisher.publish_post\<close>: the item dictionary and the channel.\<close>

record post_call =
  post_item_id :: "nat option"
  post_title :: pystr
  post_summary :: pystr
  post_link :: pystr
  post_channel :: string

text \<open>
  The state the scheduler's cycles act on: the tables, and the calls made so far to
  the publisher: the posts it was asked to deliver, and the moderation previews it
  was asked to send (the item and the administrators addressed).
\<close>

record world =
  feeds :: "feed list"
  items :: "db_item list"
  queue :: "queue_item list"
  publishes :: "publish list"
  settings :: "(string \<times> string option) list"
  delivery_calls :: "post_call list"
  moderation_previews :: "(nat \<times> int list) list"

text \<open>
  The outcome of the Bot API call inside \<open>publish_post\<close>, as a function of the call:
  \<open>Inr\<close> the message id, or \<open>Inl\<close> the error text. \<open>publish_post\<close> catches every
  exception and reports it in its result, so it never raises.
\<close>

type_synonym telegram = "post_call \<Rightarrow> pystr + string"

text \<open>The primary key the store gives a new row: one more than the largest in use.\<close>

definition fresh_id :: "nat list \<Rightarrow> nat" where
  "fresh_id ids = Suc (fold max ids 0)"

text \<open>\<open>_get_setting\<close>: the value of the first row with the key, \<open>None\<close> without one.\<close>

definition get_setting :: "world \<Rightarrow> string \<Rightarrow> string option" where
  "get_setting w key =
     (case find (\<lambda>(k, v). k = key) (settings w) of
        None \<Rightarrow> None
      | Some (k, v) \<Rightarrow> v)"

text \<open>Committing a changed queue row: the row with the same primary key is replaced.\<close>

definition commit_queue_item :: "queue_item \<Rightarrow> world \<Rightarrow> world" where
  "commit_queue_item q w =
     w\<lparr>queue := map (\<lambda>r. if id_q r = id_q q then q else r) (queue w)\<rparr>"

text \<open>
  \<open>_record_publication\<close>: a \<open>Publish\<close> row for the delivered item. The column
  \<open>item_id\<close> is not nullable, so a call without an item id (the digest) fails to
  commit; the failure is caught there and no row is written.
\<close>

definition record_publication :: "int \<Rightarrow> post_call \<Rightarrow> string \<Rightarrow> string \<Rightarrow> world \<Rightarrow> world" where
  "record_publication now c pub_type mid w =
     (case post_item_id c of
        None \<Rightarrow> w
      | Some i \<Rightarrow>
          w\<lparr>publishes := publishes w @
              [\<lparr>id_p = fresh_id (map id_p (publishes w)), item_id_p = i,
                target = post_channel c, type_p = pub_type, message_id = Some mid,
                posted_at = now\<rparr>]\<rparr>)"

text \<open>\<open>publish_post\<close>: returns \<open>(success, error)\<close> and the new state.\<close>

definition publish_post :: "telegram \<Rightarrow> int \<Rightarrow> post_call \<Rightarrow> world \<Rightarrow> (bool \<times> pystr) \<times> world" where
  "publish_post T now c w =
     (let w1 = w\<lparr>delivery_calls := delivery_calls w @ [c]\<rparr>
      in case T c of
           Inr mid \<Rightarrow> ((True, []), record_publication now c ''post'' mid w1)
         | Inl err \<Rightarrow> ((False, err), w1))"

section \<open>Publication queue\<close>

text \<open>\<open>_add_to_queue\<close>: a new row, \<open>pending\<close>, with the column defaults.\<close>

definition add_to_queue :: "int \<Rightarrow> db_item \<Rightarrow> string \<Rightarrow> int option \<Rightarrow> world \<Rightarrow> world" where
  "add_to_queue now item pub_type sched w =
     w\<lparr>queue := queue w @
         [\<lparr>id_q = fresh_id (map id_q (queue w)), item_id = id_i item, type_q = pub_type,
           channel_id = None, scheduled_at = sched, status = ''pending'', attempts = 0,
           last_attempt_at = None, error_msg = None, created_at_q = now\<rparr>]\<rparr>"

text \<open>
  The handler of \<open>_process_queue_item\<close> for an exception raised while the row is
  being processed: the row fails and the attempt is counted.
\<close>

definition fail_with :: "pystr \<Rightarrow> queue_item \<Rightarrow> queue_item" where
  "fail_with msg q = q\<lparr>status := ''failed'', error_msg := Some msg, attempts := attempts q + 1\<rparr>"

text \<open>The item dictionary \<open>_process_queue_item\<close> hands to \<open>publish_post\<close>.\<close>

definition item_post_call :: "db_item \<Rightarrow> string \<Rightarrow> post_call" where
  "item_post_call item channel =
     \<lparr>post_item_id = Some (id_i item), post_title = title_i item,
      post_summary = (case summary_i item of None \<Rightarrow> [] | Some s \<Rightarrow> s),
      post_link = link_i item, post_channel = channel\<rparr>"

text \<open>
  The part of \<open>_process_queue_item\<close> that runs once the row is marked
  \<open>processing\<close>: the row as the function commits it next, and the state of the world
  at that commit. A row whose type is neither \<open>post\<close> nor \<open>story\<close> is committed as it
  is.
\<close>

definition deliver :: "telegram \<Rightarrow> int \<Rightarrow> world \<Rightarrow> db_item \<Rightarrow> queue_item \<Rightarrow> queue_item \<times> world" where
  "deliver T now w item q =
     (let default_channel = get_setting w ''default_channel''
      in if type_q q = ''post'' then
           (if default_channel = None \<or> default_channel = Some [] then
              (fail_with (ascii ''No default channel configured'') q, w)
            else
              (case publish_post T now (item_post_call item (the default_channel)) w of
                 ((success, err), w') \<Rightarrow>
                   if success then (q\<lparr>status := ''completed''\<rparr>, w')
                   else (fail_with (ascii ''Failed to publish post: '' @ err) q, w')))
         else if type_q q = ''story'' then
           (q\<lparr>status := ''failed'',
              error_msg := Some (ascii ''Story publication requires admin context'')\<rparr>, w)
         else (q, w))"

text \<open>
  \<open>_process_queue_item\<close>. The result is the list of the states of the row that the
  function commits, in order (the last one is the row's final state), and the new
  state of the world.
\<close>

definition process_queue_item :: "telegram \<Rightarrow> int \<Rightarrow> world \<Rightarrow> queue_item \<Rightarrow> queue_item list \<times> world" where
  "process_queue_item T now w q =
     (case find (\<lambda>i. id_i i = item_id q) (items w) of
        None \<Rightarrow>
          (let q1 = q\<lparr>status := ''failed'', error_msg := Some (ascii ''Item not found'')\<rparr>
           in ([q1], commit_queue_item q1 w))
      | Some item \<Rightarrow>
          (let q1 = q\<lparr>status := ''processing'', last_attempt_at := Some now\<rparr>;
               (q2, w2) = deliver T now (commit_queue_item q1 w) item q1
           in ([q1, q2], commit_queue_item q2 w2)))"

text \<open>The filter of \<open>_process_queue\<close>: pending, and not scheduled for later.\<close>

definition is_due :: "int \<Rightarrow> queue_item \<Rightarrow> bool" where
  "is_due now q \<longleftrightarrow>
     status q = ''pending'' \<and> (case scheduled_at q of None \<Rightarrow> True | Some t \<Rightarrow> t \<le> now)"

text \<open>The query of \<open>_process_queue\<close>: the filter, then \<open>limit(10)\<close>, with no ordering.\<close>

definition pending_items :: "int \<Rightarrow> world \<Rightarrow> queue_item list" where
  "pending_items now w = take 10 (filter (is_due now) (queue w))"

text \<open>\<open>_process_queue\<close>: one drain cycle.\<close>

definition process_queue :: "telegram \<Rightarrow> int \<Rightarrow> world \<Rightarrow> world" where
  "process_queue T now w =
     fold (\<lambda>q w'. snd (process_queue_item T now w' q)) (pending_items now w) w"

section \<open>Feed polling\<close>

text \<open>
  \<open>_send_to_moderation\<close>: a preview of the item for the configured administrators
  (\<open>settings.admin_ids\<close>); nothing is sent when none is configured.
\<close>

definition send_to_moderation :: "int list \<Rightarrow> db_item \<Rightarrow> world \<Rightarrow> world" where
  "send_to_moderation admin_ids item w =
     (if admin_ids = [] then w
      else w\<lparr>moderation_previews := moderation_previews w @ [(id_i item, admin_ids)]\<rparr>)"

definition mark_feed_error :: "int \<Rightarrow> feed \<Rightarrow> pystr \<Rightarrow> world \<Rightarrow> world" where
  "mark_feed_error now fd msg w =
     w\<lparr>feeds := map (\<lambda>r. if id_fd r = id_fd fd
                          then fd\<lparr>last_error_at := Some now, last_error_msg := Some msg\<rparr>
                          else r) (feeds w)\<rparr>"

definition mark_feed_ok :: "int \<Rightarrow> feed \<Rightarrow> world \<Rightarrow> world" where
  "mark_feed_ok now fd w =
     w\<lparr>feeds := map (\<lambda>r. if id_fd r = id_fd fd
                          then fd\<lparr>last_ok_at := Some now, last_error_at := None,
                                  last_error_msg := None\<rparr>
                          else r) (feeds w)\<rparr>"

text \<open>The row \<open>_poll_single_feed\<close> builds from a normalized dictionary.\<close>

definition new_db_item :: "int \<Rightarrow> feed \<Rightarrow> item_dict \<Rightarrow> pystr \<Rightarrow> world \<Rightarrow> db_item" where
  "new_db_item now fd normalized h w =
     \<lparr>id_i = fresh_id (map id_i (items w)), feed_id_i = id_fd fd, guid_i = guid normalized,
      title_i = title normalized, link_i = link normalized,
      published_at_i = published_at normalized, content_hash_i = h,
      has_media_i = (image_url normalized \<noteq> None \<and> image_url normalized \<noteq> Some []),
      summary_i = Some (summary normalized), content_i = Some (content normalized),
      image_url_i = image_url normalized,
      tags_i = (case hashtags normalized of None \<Rightarrow> [] | Some hs \<Rightarrow> hs),
      created_at_i = now\<rparr>"

text \<open>
  The body of the loop of \<open>_poll_single_feed\<close> for one raw entry:
  \<^item> an item of this feed with the entry's GUID exists: the entry is skipped;
  \<^item> the normalized dictionary has no \<open>content_hash\<close>: reading it raises
    \<open>KeyError\<close>, the handler of the loop logs it and goes on to the next entry;
  \<^item> otherwise the item is stored, and then either previewed for moderation (the
    setting \<open>moderation_enabled\<close> is \<open>true\<close>) or queued as a post.
\<close>

definition ingest_item :: "textlib \<Rightarrow> int list \<Rightarrow> int \<Rightarrow> feed \<Rightarrow> feed_item \<Rightarrow> world \<Rightarrow> world" where
  "ingest_item L admin_ids now fd fi w =
     (case find (\<lambda>i. feed_id_i i = id_fd fd \<and> guid_i i = guid fi) (items w) of
        Some existing_item \<Rightarrow> w
      | None \<Rightarrow>
          (let normalized_item = normalize_item L (to_dict fi (id_fd fd))
           in case content_hash normalized_item of
                None \<Rightarrow> w
              | Some h \<Rightarrow>
                  (let db_item = new_db_item now fd normalized_item h w;
                       w1 = w\<lparr>items := items w @ [db_item]\<rparr>
                   in if get_setting w1 ''moderation_enabled'' = Some ''true''
                      then send_to_moderation admin_ids db_item w1
                      else add_to_queue now db_item ''post'' None w1)))"

text \<open>
  \<open>_poll_single_feed\<close>, given what \<open>fetch_feed\<close> returned for the feed's URL:
  \<open>(success, items, error)\<close>.
\<close>

definition poll_single_feed ::
    "textlib \<Rightarrow> int list \<Rightarrow> int \<Rightarrow> feed \<Rightarrow> bool \<times> feed_item list \<times> pystr \<Rightarrow> world \<Rightarrow> world" where
  "poll_single_feed L admin_ids now fd fetched w =
     (case fetched of (success, fitems, error) \<Rightarrow>
        if \<not> success then mark_feed_error now fd error w
        else mark_feed_ok now fd (fold (ingest_item L admin_ids now fd) fitems w))"

text \<open>The key the ingest gate looks an item up by: the feed and the GUID.\<close>

definition item_key :: "db_item \<Rightarrow> nat \<times> pystr" where
  "item_key i = (feed_id_i i, guid_i i)"

text \<open>
  A raw entry is settled for a feed when the gate will not store it: an item with
  its key is there, or its normalized dictionary carries no fingerprint.
\<close>

definition settled :: "textlib \<Rightarrow> feed \<Rightarrow> db_item list \<Rightarrow> feed_item \<Rightarrow> bool" where
  "settled L fd its fi \<longleftrightarrow>
     find (\<lambda>i. feed_id_i i = id_fd fd \<and> guid_i i = guid fi) its \<noteq> None \<or>
     content_hash (normalize_item L (to_dict fi (id_fd fd))) = None"

section \<open>Fetching and parsing a feed\<close>

text \<open>
  What the parsing libraries make of the response body. An entry of a parsed feed
  is given by the \<open>FeedItem\<close> the program builds from it, or by the text of the
  exception raised while building it.
  \<^item> \<open>feedparser.parse(content)\<close>: the \<open>bozo\<close> flag with its exception, and the
    entries.
  \<^item> \<open>json.loads(content)\<close>: a decoding error, a value that is not a dictionary with
    the key \<open>version\<close>, or such a dictionary with its \<open>items\<close>.
  \<^item> The page: the title and summary that \<open>readability.Document\<close> extracts (or the
    exception it raises), the parsed document, and the elements each CSS selector
    matches.
\<close>

record xml_feed =
  bozo :: bool
  bozo_exception :: pystr
  entries :: "(pystr + feed_item) list"

datatype json_doc =
    JSONDecodeError pystr
  | NotAFeed
  | JsonFeed "(pystr + feed_item) list"

record html_element =
  get_text :: pystr
  og_image :: "pystr option"
  img_src :: "pystr option"

record html_page =
  readable :: "pystr + pystr \<times> pystr"
  soup :: html_element
  select :: "string \<Rightarrow> html_element list"

record document =
  as_xml :: "pystr + xml_feed"
  as_json :: json_doc
  as_html :: html_page

text \<open>
  The outcome of the HTTP request: a timeout, another exception (with its text), or
  a response with its status, reason, \<open>content-type\<close> header and body.
\<close>

datatype http_result =
    TimeoutError
  | RequestError pystr
  | Response int pystr pystr document

type_synonym parse_result = "bool \<times> feed_item list \<times> pystr"

text \<open>
  Building the items of a feed: the first entry that raises ends the parse with
  its exception.
\<close>

fun build_items :: "(pystr + feed_item) list \<Rightarrow> pystr + feed_item list" where
  "build_items [] = Inr []"
| "build_items (Inl e # es) = Inl e"
| "build_items (Inr i # es) =
     (case build_items es of Inl e \<Rightarrow> Inl e | Inr is \<Rightarrow> Inr (i # is))"

definition parse_xml_feed :: "document \<Rightarrow> parse_result" where
  "parse_xml_feed d =
     (case as_xml d of
        Inl e \<Rightarrow> (False, [], e)
      | Inr fd \<Rightarrow>
          if bozo fd then (False, [], ascii ''Feed parsing error: '' @ bozo_exception fd)
          else (case build_items (entries fd) of
                  Inl e \<Rightarrow> (False, [], e)
                | Inr fitems \<Rightarrow> (True, fitems, [])))"

definition parse_json_feed :: "document \<Rightarrow> parse_result" where
  "parse_json_feed d =
     (case as_json d of
        JSONDecodeError e \<Rightarrow> (False, [], ascii ''Invalid JSON: '' @ e)
      | NotAFeed \<Rightarrow> (False, [], ascii ''Invalid JSON Feed format'')
      | JsonFeed es \<Rightarrow>
          (case build_items es of
             Inl e \<Rightarrow> (False, [], e)
           | Inr fitems \<Rightarrow> (True, fitems, [])))"

text \<open>\<open>_clean_text\<close>: the text without markup, whitespace collapsed.\<close>

definition clean_text :: "textlib \<Rightarrow> pystr \<Rightarrow> pystr" where
  "clean_text L t = (if t = [] then [] else collapse_ws L (soup_text L t))"

text \<open>
  \<open>_generate_guid\<close>: the SHA-256 of the first 100 characters of the element's text
  followed by the URL. The encoding can raise; the caller's handler then reports
  the text of the exception.
\<close>

definition generate_guid :: "html_element \<Rightarrow> pystr \<Rightarrow> pystr + pystr" where
  "generate_guid element url =
     (case hash_content (take 100 (get_text element) @ url) of
        None \<Rightarrow> Inl (encode_error_text (take 100 (get_text element) @ url))
      | Some h \<Rightarrow> Inr h)"

definition extract_html_image :: "html_element \<Rightarrow> pystr option" where
  "extract_html_image element =
     (if og_image element \<noteq> None \<and> og_image element \<noteq> Some [] then og_image element
      else if img_src element \<noteq> None \<and> img_src element \<noteq> Some [] then img_src element
      else None)"

text \<open>The selectors of \<open>_parse_html_fallback\<close>, in the order they are tried.\<close>

definition selectors :: "string list" where
  \<open>selectors =
     [''article'', ''.article'', ''.post'', ''.entry'',
      ''[class*="article"]'', ''[class*="post"]'', ''[class*="entry"]'']\<close>

text \<open>The loop over the selectors: the matches of the first selector that has any.\<close>

fun find_articles :: "(string \<Rightarrow> html_element list) \<Rightarrow> string list \<Rightarrow> html_element list" where
  "find_articles sel [] = []"
| "find_articles sel (s # ss) = (if sel s \<noteq> [] then sel s else find_articles sel ss)"

text \<open>\<open>title or urlparse(url).netloc\<close>.\<close>

definition title_or_netloc :: "textlib \<Rightarrow> pystr \<Rightarrow> pystr \<Rightarrow> pystr + pystr" where
  "title_or_netloc L t url = (if t \<noteq> [] then Inr t else urlparse_netloc L url)"

text \<open>The item built from one article-like element of the page.\<close>

definition article_item :: "textlib \<Rightarrow> int \<Rightarrow> pystr \<Rightarrow> pystr \<Rightarrow> html_element \<Rightarrow> pystr + feed_item" where
  "article_item L now t url article =
     (case generate_guid article url of
        Inl e \<Rightarrow> Inl e
      | Inr g \<Rightarrow>
          (case title_or_netloc L t url of
             Inl e \<Rightarrow> Inl e
           | Inr ft \<Rightarrow>
               Inr \<lparr>guid = g, title = clean_text L (take 100 (get_text article)), link = url,
                    published_at = Some now,
                    summary = clean_text L (take 200 (get_text article)),
                    content = clean_text L (get_text article),
                    image_url = extract_html_image article, tags = [], author = [],
                    feed_url = url, feed_title = ft\<rparr>))"

text \<open>The single item built from the whole page.\<close>

definition page_item :: "textlib \<Rightarrow> int \<Rightarrow> pystr \<Rightarrow> pystr \<Rightarrow> pystr \<Rightarrow> html_element \<Rightarrow> pystr + feed_item" where
  "page_item L now t content_text url page_soup =
     (case generate_guid page_soup url of
        Inl e \<Rightarrow> Inl e
      | Inr g \<Rightarrow>
          (case title_or_netloc L t url of
             Inl e \<Rightarrow> Inl e
           | Inr ft \<Rightarrow>
               Inr \<lparr>guid = g, title = ft, link = url, published_at = Some now,
                    summary = clean_text L (take 200 content_text),
                    content = clean_text L content_text,
                    image_url = extract_html_image page_soup, tags = [], author = [],
                    feed_url = url, feed_title = ft\<rparr>))"

definition parse_html_fallback :: "textlib \<Rightarrow> int \<Rightarrow> document \<Rightarrow> pystr \<Rightarrow> parse_result" where
  "parse_html_fallback L now d url =
     (case readable (as_html d) of
        Inl e \<Rightarrow> (False, [], e)
      | Inr (t, content_text) \<Rightarrow>
          (let articles = find_articles (select (as_html d)) selectors
           in if articles \<noteq> [] then
                (case build_items (map (article_item L now t url) (take 10 articles)) of
                   Inl e \<Rightarrow> (False, [], e)
                 | Inr fitems \<Rightarrow> (True, fitems, []))
              else
                (case page_item L now t content_text url (soup (as_html d)) of
                   Inl e \<Rightarrow> (False, [], e)
                 | Inr item \<Rightarrow> (True, [item], []))))"

text \<open>
  \<open>fetch_feed\<close>, given the outcome of the request. The content type selects the
  JSON or the XML parser when it names one; otherwise the parsers are tried in
  turn, and the first one whose success flag is set gives the result.
\<close>

definition fetch_feed :: "textlib \<Rightarrow> int \<Rightarrow> pystr \<Rightarrow> http_result \<Rightarrow> parse_result" where
  "fetch_feed L now url r =
     (case r of
        TimeoutError \<Rightarrow> (False, [], ascii ''Request timeout'')
      | RequestError e \<Rightarrow> (False, [], e)
      | Response st reason ctype d \<Rightarrow>
          if st \<noteq> 200 then (False, [], ascii ''HTTP '' @ str_of_int st @ ascii '': '' @ reason)
          else
            (let content_type = str_lower L ctype
             in if str_in (ascii ''json'') content_type \<or> suffix (ascii ''.json'') url then
                  parse_json_feed d
                else if str_in (ascii ''xml'') content_type \<or> str_in (ascii ''rss'') content_type
                        \<or> str_in (ascii ''atom'') content_type then
                  parse_xml_feed d
                else
                  (case parse_xml_feed d of
                     (True, fitems, error) \<Rightarrow> (True, fitems, error)
                   | (False, fitems, error) \<Rightarrow>
                       (case parse_json_feed d of
                          (True, fitems', error') \<Rightarrow> (True, fitems', error')
                        | (False, fitems', error') \<Rightarrow> parse_html_fallback L now d url))))"

section \<open>Digest\<close>

text \<open>
  The heading of the digest message and the title it is posted under, as code
  points (both are Russian text; the heading starts with a newspaper emoji and ends
  with a blank line).
\<close>

definition digest_heading :: pystr where
  "digest_heading =
     [128240, 32, 42, 1044, 1072, 1081, 1076, 1078, 1077, 1089, 1090, 32, 1079, 1072, 32, 1087, 1086,
      1089, 1083, 1077, 1076, 1085, 1080, 1077, 32, 50, 52, 32, 1095, 1072, 1089, 1072, 42, 10, 10]"

definition digest_title :: pystr where
  "digest_title = [1044, 1072, 1081, 1076, 1078, 1077, 1089, 1090]"

text \<open>The paragraph of the digest for the \<open>i\<close>-th item.\<close>

definition digest_entry :: "nat \<Rightarrow> db_item \<Rightarrow> pystr" where
  "digest_entry i item =
     str_of_int (int i) @ ascii ''. ['' @ title_i item @ ascii '']('' @ link_i item @ ascii '')'' @ [10] @
     (case summary_i item of
        None \<Rightarrow> []
      | Some s \<Rightarrow>
          if s = [] then []
          else ascii ''   '' @ (if length s > 100 then take 100 s @ ascii ''...'' else s) @ [10]) @
     [10]"

definition digest_text :: "db_item list \<Rightarrow> pystr" where
  "digest_text top_items =
     digest_heading @ concat (map (\<lambda>(i, item). digest_entry i item) (zip [1..<Suc (length top_items)] top_items))"

text \<open>
  The query of \<open>_create_digest\<close> orders by \<open>Item.word_count\<close>. The parameter
  \<open>word_count_column\<close> is that column when the model \<open>Item\<close> has one; when it has
  none (\<open>None\<close>), evaluating \<open>Item.word_count\<close> raises \<open>AttributeError\<close> before any
  row is read. With the column, the ten items of the last 24 hours with the most
  words are taken (the order among equal counts is the store's choice; here it is
  reverse row order).

  \<open>create_digest_body\<close> is the \<open>try\<close> block: \<open>Inl\<close> the text of an exception raised
  in it, or \<open>Inr\<close> the state it leaves.
\<close>

definition create_digest_body ::
    "(db_item \<Rightarrow> int) option \<Rightarrow> telegram \<Rightarrow> int \<Rightarrow> world \<Rightarrow> pystr + world" where
  "create_digest_body word_count_column T now w =
     (let yesterday = now - 86400
      in case word_count_column of
           None \<Rightarrow> Inl (ascii ''AttributeError: Item has no attribute word_count'')
         | Some wc \<Rightarrow>
             (let top_items =
                    take 10 (rev (sort_key wc (filter (\<lambda>i. created_at_i i \<ge> yesterday) (items w))))
              in if top_items = [] then Inr w
                 else
                   (let default_channel = get_setting w ''default_channel''
                    in if default_channel = None \<or> default_channel = Some [] then Inr w
                       else Inr (snd (publish_post T now
                                   \<lparr>post_item_id = None, post_title = digest_title,
                                    post_summary = digest_text top_items, post_link = [],
                                    post_channel = the default_channel\<rparr> w)))))"

text \<open>
  \<open>_create_digest\<close> with its handler, which logs the exception and returns. The
  result pairs the exception that leaves the function (there is none: the handler
  catches every \<open>Exception\<close>) with the state.
\<close>

definition create_digest_with ::
    "(db_item \<Rightarrow> int) option \<Rightarrow> telegram \<Rightarrow> int \<Rightarrow> world \<Rightarrow> pystr option \<times> world" where
  "create_digest_with word_count_column T now w =
     (case create_digest_body word_count_column T now w of
        Inl e \<Rightarrow> (None, w)
      | Inr w' \<Rightarrow> (None, w'))"

text \<open>
  The model \<open>Item\<close> of \<open>database.py\<close> declares the columns of the record \<open>db_item\<close>
  and no column \<open>word_count\<close>.
\<close>

definition item_word_count :: "(db_item \<Rightarrow> int) option" where
  "item_word_count = None"

definition create_digest :: "telegram \<Rightarrow> int \<Rightarrow> world \<Rightarrow> pystr option \<times> world" where
  "create_digest T now w = create_digest_with item_word_count T now w"

section \<open>Retention cleanup\<close>

text \<open>
  The places where \<open>_cleanup_old_data\<close> talks to the store: the three queries and
  the one \<open>commit\<close>. \<open>fails\<close> gives, for each, the text of the exception the store
  raises there, if it does.
\<close>

datatype cleanup_step = QueryItems | QueryQueue | QueryPublishes | Commit

definition store_step :: "(cleanup_step \<Rightarrow> pystr option) \<Rightarrow> cleanup_step \<Rightarrow> 'a \<Rightarrow> pystr + 'a" where
  "store_step fails st v = (case fails st of Some e \<Rightarrow> Inl e | None \<Rightarrow> Inr v)"

text \<open>
  What the commit deletes: the rows marked for deletion and, through the
  relationships of \<open>Item\<close> (\<open>cascade="all, delete-orphan"\<close>), the queue rows and
  publication records of the deleted items.
\<close>

definition delete_marked :: "db_item list \<Rightarrow> queue_item list \<Rightarrow> publish list \<Rightarrow> world \<Rightarrow> world" where
  "delete_marked old_items old_queue_items old_publishes w =
     w\<lparr>items := filter (\<lambda>i. id_i i \<notin> set (map id_i old_items)) (items w),
       queue := filter (\<lambda>q. id_q q \<notin> set (map id_q old_queue_items) \<and>
                            item_id q \<notin> set (map id_i old_items)) (queue w),
       publishes := filter (\<lambda>p. id_p p \<notin> set (map id_p old_publishes) \<and>
                                item_id_p p \<notin> set (map id_i old_items)) (publishes w)\<rparr>"

text \<open>The \<open>try\<close> block of \<open>_cleanup_old_data\<close>: the marks accumulate in the session and
  take effect at the single commit that ends the block.\<close>

definition cleanup_body :: "(cleanup_step \<Rightarrow> pystr option) \<Rightarrow> int \<Rightarrow> world \<Rightarrow> pystr + world" where
  "cleanup_body fails now w =
     (let thirty_days_ago = now - 30 * 86400;
          seven_days_ago = now - 7 * 86400
      in case store_step fails QueryItems
                (filter (\<lambda>i. created_at_i i < thirty_days_ago) (items w)) of
           Inl e \<Rightarrow> Inl e
         | Inr old_items \<Rightarrow>
             (case store_step fails QueryQueue
                     (filter (\<lambda>q. created_at_q q < seven_days_ago \<and>
                                   status q \<in> set [''completed'', ''failed'']) (queue w)) of
                Inl e \<Rightarrow> Inl e
              | Inr old_queue_items \<Rightarrow>
                  (case store_step fails QueryPublishes
                          (filter (\<lambda>p. posted_at p < thirty_days_ago) (publishes w)) of
                     Inl e \<Rightarrow> Inl e
                   | Inr old_publishes \<Rightarrow>
                       store_step fails Commit
                         (delete_marked old_items old_queue_items old_publishes w))))"

text \<open>\<open>_cleanup_old_data\<close>: on an exception nothing was committed.\<close>

definition cleanup_old_data :: "(cleanup_step \<Rightarrow> pystr option) \<Rightarrow> int \<Rightarrow> world \<Rightarrow> world" where
  "cleanup_old_data fails now w =
     (case cleanup_body fails now w of Inl e \<Rightarrow> w | Inr w' \<Rightarrow> w')"

section \<open>Concrete inputs\<close>

text \<open>
  An instance of the text library for plain ASCII text without markup: lower-casing
  of the letters A to Z, the host of a URL of the form \<open>https://host/path\<close>, and
  the identity for the operations that strip markup or rewrite text.
\<close>

definition plain_lib :: textlib where
  "plain_lib =
     \<lparr>str_lower = map (\<lambda>c. if 65 \<le> c \<and> c \<le> 90 then c + 32 else c),
      urlparse_netloc = (\<lambda>url. Inr (takeWhile (\<lambda>c. c \<noteq> 47) (drop 8 url))),
      soup_text = (\<lambda>s. s), collapse_ws = (\<lambda>s. s), split_sentences = (\<lambda>s. [s]),
      typography_subs = (\<lambda>s. s), markdown_subs = (\<lambda>s. s), soup_markdown = (\<lambda>s. s),
      utm_on = False, with_utm = (\<lambda>s. s), strip_tracking = (\<lambda>s. s),
      find_words = (\<lambda>s. [s])\<rparr>"

text \<open>An item whose text matches five keyword categories.\<close>

definition busy_item :: item_dict where
  "busy_item =
     \<lparr>guid = ascii ''g1'', title = ascii ''AI tech'', link = ascii ''https://www.example.com/a'',
      published_at = None, summary = ascii ''game art sport'', content = [],
      image_url = None, tags = [], author = [], feed_url = [], feed_title = [],
      feed_id = 1, content_hash = None, hashtags = None, lang = Some (ascii ''en''),
      word_count = None\<rparr>"

section \<open>Queue: terms of the specification and concrete inputs\<close>

text \<open>A terminal status: the drain cycle makes no transition out of it.\<close>

definition terminal :: "queue_item \<Rightarrow> bool" where
  "terminal q \<longleftrightarrow> status q = ''completed'' \<or> status q = ''failed''"

text \<open>
  The time from which a row is due: its \<open>scheduled_at\<close>, or its creation when it is
  not scheduled.
\<close>

definition due_time :: "queue_item \<Rightarrow> int" where
  "due_time q = (case scheduled_at q of None \<Rightarrow> created_at_q q | Some t \<Rightarrow> t)"

text \<open>
  Oldest-due-first selection, in the words of the specification: no due row left
  out of the batch has been due for longer than a row in the batch.
\<close>

definition oldest_due_first :: "int \<Rightarrow> world \<Rightarrow> queue_item list \<Rightarrow> bool" where
  "oldest_due_first now w batch \<longleftrightarrow>
     (\<forall>s\<in>set batch. \<forall>r\<in>set (filter (is_due now) (queue w)).
        r \<notin> set batch \<longrightarrow> due_time s \<le> due_time r)"

text \<open>Two publishers: one that delivers every post, one that delivers none.\<close>

definition telegram_up :: telegram where
  "telegram_up = (\<lambda>c. Inr ''1001'')"

definition telegram_down :: telegram where
  "telegram_down = (\<lambda>c. Inl (ascii ''Telegram API error: Timed out''))"

definition stored_item :: db_item where
  "stored_item =
     \<lparr>id_i = 1, feed_id_i = 1, guid_i = ascii ''g1'', title_i = ascii ''Title'',
      link_i = ascii ''https://example.com/a'', published_at_i = None,
      content_hash_i = [], has_media_i = False, summary_i = Some (ascii ''Summary''),
      content_i = Some (ascii ''Body''), image_url_i = None, tags_i = [], created_at_i = 0\<rparr>"

text \<open>A pending row for the stored item, of the given type, scheduled and created as given.\<close>

definition queue_row :: "nat \<Rightarrow> string \<Rightarrow> int option \<Rightarrow> int \<Rightarrow> queue_item" where
  "queue_row i t sched created =
     \<lparr>id_q = i, item_id = 1, type_q = t, channel_id = None, scheduled_at = sched,
      status = ''pending'', attempts = 0, last_attempt_at = None, error_msg = None,
      created_at_q = created\<rparr>"

definition queue_world :: "queue_item list \<Rightarrow> world" where
  "queue_world rows =
     \<lparr>feeds = [], items = [stored_item], queue = rows, publishes = [],
      settings = [(''moderation_enabled'', Some ''false''), (''default_channel'', Some ''@news'')],
      delivery_calls = [], moderation_previews = []\<rparr>"

text \<open>
  A backlog: ten posts delayed until 7200, then one delayed until 1900, all past due
  at 7260.
\<close>

definition backlog :: "queue_item list" where
  "backlog =
     [queue_row 1 ''post'' (Some 7200) 0, queue_row 2 ''post'' (Some 7200) 1,
      queue_row 3 ''post'' (Some 7200) 2, queue_row 4 ''post'' (Some 7200) 3,
      queue_row 5 ''post'' (Some 7200) 4, queue_row 6 ''post'' (Some 7200) 5,
      queue_row 7 ''post'' (Some 7200) 6, queue_row 8 ''post'' (Some 7200) 7,
      queue_row 9 ''post'' (Some 7200) 8, queue_row 10 ''post'' (Some 7200) 9,
      queue_row 11 ''post'' (Some 1900) 100]"

section \<open>Polling: concrete inputs\<close>

definition news_feed :: feed where
  "news_feed =
     \<lparr>id_fd = 1, url_fd = ascii ''https://example.com/feed'', last_ok_at = None,
      last_error_at = None, last_error_msg = None, enabled = True\<rparr>"

text \<open>A raw entry with the given GUID.\<close>

definition raw_entry :: "string \<Rightarrow> feed_item" where
  "raw_entry g =
     \<lparr>guid = ascii g, title = ascii ''Title'', link = ascii ''https://example.com/a'',
      published_at = None, summary = ascii ''Summary'', content = ascii ''Body'',
      image_url = None, tags = [], author = [], feed_url = ascii ''https://example.com/feed'',
      feed_title = ascii ''Example''\<rparr>"

text \<open>A store with the feed and nothing else, moderation set as given.\<close>

definition empty_world :: "string \<Rightarrow> world" where
  "empty_world moderation =
     \<lparr>feeds = [news_feed], items = [], queue = [], publishes = [],
      settings = [(''moderation_enabled'', Some moderation), (''default_channel'', Some ''@news'')],
      delivery_calls = [], moderation_previews = []\<rparr>"

section \<open>Fingerprint: concrete inputs\<close>

text \<open>The same article as \<open>raw_entry\<close>, under another GUID and link, as a second feed delivers it.\<close>

definition mirrored_entry :: "string \<Rightarrow> feed_item" where
  "mirrored_entry g =
     (raw_entry g)\<lparr>link := ascii ''https://mirror.example.org/b'',
                   feed_url := ascii ''https://mirror.example.org/rss'',
                   feed_title := ascii ''Mirror''\<rparr>"

text \<open>The characters of a lower-case hexadecimal digest.\<close>

definition is_hex_digit :: "nat \<Rightarrow> bool" where
  "is_hex_digit c \<longleftrightarrow> (48 \<le> c \<and> c \<le> 57) \<or> (97 \<le> c \<and> c \<le> 102)"

section \<open>Fetching: concrete inputs\<close>






section \<open>Digest and cleanup: concrete inputs\<close>

text \<open>A word-count column, for a model that had one: the length of the stored content.\<close>

definition content_length_column :: "(db_item \<Rightarrow> int) option" where
  "content_length_column =
     Some (\<lambda>i. case content_i i of None \<Rightarrow> 0 | Some c \<Rightarrow> int (length c))"

text \<open>
  A store, forty days after its rows were written: one item, a completed queue row
  for it, a failed queue row for it, and the record of its publication.
\<close>

definition aged_world :: world where
  "aged_world =
     \<lparr>feeds = [news_feed], items = [stored_item],
      queue = [(queue_row 1 ''post'' None 0)\<lparr>status := ''completed''\<rparr>,
               (queue_row 2 ''post'' None 10)\<lparr>status := ''failed'', attempts := 1\<rparr>],
      publishes = [\<lparr>id_p = 1, item_id_p = 1, target = ''@news'', type_p = ''post'',
                    message_id = Some ''1001'', posted_at = 60\<rparr>],
      settings = [(''moderation_enabled'', Some ''false''), (''default_channel'', Some ''@news'')],
      delivery_calls = [], moderation_previews = []\<rparr>"

definition forty_days :: int where
  "forty_days = 40 * 86400"

text \<open>The store raising nowhere, and raising at the query for old publication records.\<close>

definition no_failure :: "cleanup_step \<Rightarrow> pystr option" where
  "no_failure = (\<lambda>st. None)"

definition publishes_query_fails :: "cleanup_step \<Rightarrow> pystr option" where
  "publishes_query_fails =
     (\<lambda>st. if st = QueryPublishes then Some (ascii ''database is locked'') else None)"



section \<open>Entries of an XML feed\<close>

text \<open>
  An entry as \<open>feedparser\<close> presents it. An attribute is \<open>None\<close> when the entry
  does not have it (\<open>hasattr\<close> is false). What \<open>_parse_date\<close>, \<open>_extract_content\<close>,
  \<open>_extract_image\<close> and \<open>_extract_tags\<close> return for the entry is given with it.
\<close>

record xml_entry =
  entry_id :: "pystr option"
  entry_guid :: "pystr option"
  entry_link :: "pystr option"
  entry_title :: "pystr option"
  entry_summary :: "pystr option"
  entry_author :: "pystr option"
  parsed_date :: "int option"
  extracted_content :: pystr
  extracted_image :: "pystr option"
  extracted_tags :: "pystr list"

text \<open>
  The running interpreter: the built-in \<open>hash\<close> on strings, whose salt is drawn anew
  when a process starts, and \<open>urllib.parse.urljoin\<close>.
\<close>

record interpreter =
  str_hash :: "pystr \<Rightarrow> int"
  urljoin :: "pystr \<Rightarrow> pystr \<Rightarrow> pystr"

text \<open>\<open>_extract_link\<close>: the entry's link, made absolute when it does not start with \<open>http\<close>.\<close>

definition extract_link :: "interpreter \<Rightarrow> xml_entry \<Rightarrow> pystr \<Rightarrow> pystr" where
  "extract_link P entry base_url =
     (case entry_link entry of
        None \<Rightarrow> []
      | Some l \<Rightarrow> if l \<noteq> [] \<and> \<not> prefix (ascii ''http'') l then urljoin P base_url l else l)"

text \<open>
  \<open>_extract_guid\<close>: the first of \<open>id\<close>, \<open>guid\<close> and \<open>link\<close> that the entry has with a
  non-empty value; without one, the decimal text of the built-in hash of title and
  link.
\<close>

definition extract_guid :: "interpreter \<Rightarrow> xml_entry \<Rightarrow> pystr" where
  "extract_guid P entry =
     (case filter (\<lambda>v. v \<noteq> None \<and> v \<noteq> Some [])
             [entry_id entry, entry_guid entry, entry_link entry] of
        Some v # rest \<Rightarrow> v
      | _ \<Rightarrow>
          (let t = (case entry_title entry of None \<Rightarrow> [] | Some v \<Rightarrow> v);
               l = extract_link P entry []
           in str_of_int (str_hash P (t @ l))))"

text \<open>The \<open>FeedItem\<close> that \<open>_parse_xml_feed\<close> builds from an entry.\<close>

definition entry_item :: "textlib \<Rightarrow> interpreter \<Rightarrow> pystr \<Rightarrow> pystr \<Rightarrow> xml_entry \<Rightarrow> feed_item" where
  "entry_item L P url ft entry =
     \<lparr>guid = extract_guid P entry,
      title = clean_text L (case entry_title entry of None \<Rightarrow> [] | Some v \<Rightarrow> v),
      link = extract_link P entry url,
      published_at = parsed_date entry,
      summary = clean_text L (case entry_summary entry of None \<Rightarrow> [] | Some v \<Rightarrow> v),
      content = extracted_content entry,
      image_url = extracted_image entry,
      tags = extracted_tags entry,
      author = (case entry_author entry of None \<Rightarrow> [] | Some v \<Rightarrow> v),
      feed_url = url, feed_title = ft\<rparr>"

text \<open>
  What a process makes of a response body that is a well-formed feed with the given
  title and entries: \<open>feedparser\<close> reads it without complaint; it does not decode
  as JSON; as a page it has no article-like region.
\<close>

definition feed_body :: "textlib \<Rightarrow> interpreter \<Rightarrow> pystr \<Rightarrow> pystr \<Rightarrow> xml_entry list \<Rightarrow> document" where
  "feed_body L P url ft es =
     \<lparr>as_xml = Inr \<lparr>bozo = False, bozo_exception = [],
                      entries = map (\<lambda>e. Inr (entry_item L P url ft e)) es\<rparr>,
      as_json = JSONDecodeError (ascii ''Expecting value''),
      as_html = \<lparr>readable = Inr (ft, []),
                  soup = \<lparr>get_text = ft, og_image = None, img_src = None\<rparr>,
                  select = (\<lambda>s. [])\<rparr>\<rparr>"

text \<open>
  One poll of a feed, from the outcome of the request to the store:
  \<open>_poll_single_feed\<close> with its call of \<open>fetch_feed\<close> on the feed's URL.
\<close>

definition poll_feed :: "textlib \<Rightarrow> int list \<Rightarrow> int \<Rightarrow> feed \<Rightarrow> http_result \<Rightarrow> world \<Rightarrow> world" where
  "poll_feed L A now fd r w =
     poll_single_feed L A now fd (fetch_feed L now (url_fd fd) r) w"

text \<open>
  An entry with a title and a description and neither \<open>guid\<close> nor \<open>link\<close> (both are
  optional in RSS 2.0), and the response that serves a channel holding it.
\<close>

definition bare_entry :: xml_entry where
  "bare_entry =
     \<lparr>entry_id = None, entry_guid = None, entry_link = None,
      entry_title = Some (ascii ''Hello''), entry_summary = Some (ascii ''World''),
      entry_author = None, parsed_date = None, extracted_content = ascii ''World'',
      extracted_image = None, extracted_tags = []\<rparr>"

definition bare_channel :: "interpreter \<Rightarrow> http_result" where
  "bare_channel P =
     Response 200 (ascii ''OK'') (ascii ''application/rss+xml'')
       (feed_body plain_lib P (url_fd news_feed) (ascii ''Example'') [bare_entry])"

text \<open>
  Two runs of the interpreter, with the values that \<open>hash('Hello')\<close> took in two
  processes started one after the other.
\<close>

definition first_run :: interpreter where
  "first_run = \<lparr>str_hash = (\<lambda>s. - 2950624490791912696), urljoin = (\<lambda>b l. b @ l)\<rparr>"

definition second_run :: interpreter where
  "second_run = \<lparr>str_hash = (\<lambda>s. 6274576018921423682), urljoin = (\<lambda>b l. b @ l)\<rparr>"

section \<open>Operations on the queue\<close>

text \<open>
  Modelled from the spec: the external retry decision of the specification (section 4.3:
  a \<open>failed\<close> entry "may be re-armed to \<open>pending\<close> by an external retry decision
  up to a configured attempt ceiling, after which it is terminal"). The repository
  holds no code for it. The decision names a queue row; it re-arms the row when the
  row is \<open>failed\<close> and its attempt count is below the ceiling
  (\<open>settings.retry_attempts\<close> of \<open>config.py\<close>, default 3), and does nothing otherwise.
\<close>

definition retry_decision :: "int \<Rightarrow> nat \<Rightarrow> world \<Rightarrow> world" where
  "retry_decision retry_attempts i w =
     w\<lparr>queue := map (\<lambda>q. if id_q q = i \<and> status q = ''failed'' \<and> attempts q < retry_attempts
                          then q\<lparr>status := ''pending''\<rparr> else q) (queue w)\<rparr>"

text \<open>
  Everything that acts on the queue: a drain cycle (\<open>_process_queue\<close>), a retry
  decision, the queuing of a post for an item (\<open>_add_to_queue\<close> as the ingest gate
  calls it; the moderation delay of \<open>publisher.py\<close> writes the same row with a
  \<open>scheduled_at\<close>), a poll of a feed, a digest cycle and a cleanup cycle.
\<close>

datatype queue_op =
    Drain telegram int
  | Retry nat
  | Enqueue int db_item "int option"
  | Poll textlib "int list" int feed "bool \<times> feed_item list \<times> pystr"
  | Digest telegram int
  | Cleanup "cleanup_step \<Rightarrow> pystr option" int

fun apply_op :: "int \<Rightarrow> queue_op \<Rightarrow> world \<Rightarrow> world" where
  "apply_op c (Drain T now) w = process_queue T now w"
| "apply_op c (Retry i) w = retry_decision c i w"
| "apply_op c (Enqueue now item sched) w = add_to_queue now item ''post'' sched w"
| "apply_op c (Poll L A now fd fetched) w = poll_single_feed L A now fd fetched w"
| "apply_op c (Digest T now) w = snd (create_digest T now w)"
| "apply_op c (Cleanup fails now) w = cleanup_old_data fails now w"

fun is_cleanup :: "queue_op \<Rightarrow> bool" where
  "is_cleanup (Cleanup fails now) = True"
| "is_cleanup op = False"

text \<open>
  The rows the program writes: every row is a post (the only type
  \<open>scheduler.py\<close> and \<open>publisher.py\<close> queue), and the primary keys are distinct.
\<close>

definition written_rows :: "world \<Rightarrow> bool" where
  "written_rows w \<longleftrightarrow>
     distinct (map id_q (queue w)) \<and> list_all (\<lambda>q. type_q q = ''post'') (queue w)"

text \<open>From one state to the next no row's attempt count goes down.\<close>

definition attempts_kept :: "world \<Rightarrow> world \<Rightarrow> bool" where
  "attempts_kept w w' \<longleftrightarrow>
     (\<forall>r\<in>set (queue w). \<forall>r'\<in>set (queue w'). id_q r' = id_q r \<longrightarrow> attempts r \<le> attempts r')"

text \<open>
  What one operation other than a cleanup can do to a row: leave it, re-arm it
  (only when \<open>failed\<close> below the ceiling), or process it (only when \<open>pending\<close>),
  which leaves its attempt count or adds one to it and fails it.
\<close>

definition row_step :: "int \<Rightarrow> queue_item \<Rightarrow> queue_item \<Rightarrow> bool" where
  "row_step c r r' \<longleftrightarrow>
     id_q r' = id_q r \<and> type_q r' = type_q r \<and>
     (r' = r \<or>
      (status r = ''failed'' \<and> attempts r < c \<and> r' = r\<lparr>status := ''pending''\<rparr>) \<or>
      (status r = ''pending'' \<and>
       (attempts r' = attempts r \<or> (attempts r' = attempts r + 1 \<and> status r' = ''failed''))))"

text \<open>
  Below a positive ceiling every row is terminal once its attempt count has reached
  the ceiling.
\<close>

definition within_ceiling :: "int \<Rightarrow> world \<Rightarrow> bool" where
  "within_ceiling c w \<longleftrightarrow> list_all (\<lambda>r. attempts r < c \<or> terminal r) (queue w)"

text \<open>
  One post whose delivery always fails: the row after \<open>n\<close> failed deliveries, each
  at time 100, the state of the world then, and the run that leads to three of them
  (the post is queued, and each failure but the last is followed by a retry
  decision).
\<close>

definition tried_row :: "nat \<Rightarrow> queue_item" where
  "tried_row n =
     (queue_row 1 ''post'' None 0)
       \<lparr>status := ''failed'', attempts := int n, last_attempt_at := Some 100,
        error_msg := Some (ascii ''Failed to publish post: '' @
                           ascii ''Telegram API error: Timed out'')\<rparr>"

definition tried :: "nat \<Rightarrow> world" where
  "tried n =
     \<lparr>feeds = [], items = [stored_item], queue = [tried_row n], publishes = [],
      settings = [(''moderation_enabled'', Some ''false''), (''default_channel'', Some ''@news'')],
      delivery_calls = replicate n (item_post_call stored_item ''@news''),
      moderation_previews = []\<rparr>"

definition three_failures :: "queue_op list" where
  "three_failures =
     [Enqueue 0 stored_item None, Drain telegram_down 100,
      Retry 1, Drain telegram_down 100,
      Retry 1, Drain telegram_down 100]"

section \<open>Properties\<close>

subsection \<open>Decimal digits\<close>

lemma digits_step:
  "0 < k \<Longrightarrow>
   digits k n = (if n < 10 then [48 + n] else digits (k - 1) (n div 10) @ [48 + n mod 10])"
  by (cases k) simp_all


subsection \<open>Hashtags\<close>

lemma busy_text: "hashtag_text plain_lib busy_item = ascii ''ai tech game art sport ''"
  by (simp add: hashtag_text_def plain_lib_def busy_item_def ascii_def)

lemma busy_keyword_tags:
  "keyword_tags (ascii ''ai tech game art sport '') =
     [[35, 1090, 1077, 1093, 1085, 1086, 1083, 1086, 1075, 1080, 1080], ascii ''#ai'',
      [35, 1080, 1075, 1088, 1099], [35, 1089, 1087, 1086, 1088, 1090],
      [35, 1082, 1091, 1083, 1100, 1090, 1091, 1088, 1072]]"
  by (simp add: keyword_tags_def common_tags_def ascii_def str_in_def sublist_Cons_right)

lemma busy_domain_tags: "domain_tags plain_lib (link busy_item) = [ascii ''#example_com'']"
  by (simp add: domain_tags_def extract_domain_def plain_lib_def busy_item_def ascii_def
        replace_char_def)

lemma busy_lang_tags: "lang_tags (lang busy_item) = [ascii ''#english'']"
  by (simp add: lang_tags_def busy_item_def ascii_def)

text \<open>
  Claim C10. \<open>_generate_hashtags\<close> returns at most five hashtags. The list is cut
  after the keyword tags, the domain tag and the language tag have been collected in
  that order, so when five or more keyword categories match, the result is the first
  five keyword tags and the domain tag and the language tag are dropped.
\<close>

theorem generate_hashtags_cap:
  "length (generate_hashtags L item) \<le> 5 \<and>
   generate_hashtags L item =
     take 5 (keyword_tags (hashtag_text L item) @ domain_tags L (link item) @ lang_tags (lang item)) \<and>
   (5 \<le> length (keyword_tags (hashtag_text L item)) \<longrightarrow>
      generate_hashtags L item = take 5 (keyword_tags (hashtag_text L item)))"
  by (simp add: generate_hashtags_def collected_hashtags_def)

theorem generate_hashtags_cap_witness:
  "5 \<le> length (keyword_tags (hashtag_text plain_lib busy_item)) \<and>
   domain_tags plain_lib (link busy_item) = [ascii ''#example_com''] \<and>
   lang_tags (lang busy_item) = [ascii ''#english''] \<and>
   length (generate_hashtags plain_lib busy_item) = 5 \<and>
   ascii ''#example_com'' \<notin> set (generate_hashtags plain_lib busy_item) \<and>
   ascii ''#english'' \<notin> set (generate_hashtags plain_lib busy_item)"
proof -
  have k: "5 \<le> length (keyword_tags (hashtag_text plain_lib busy_item))"
    by (simp add: busy_text busy_keyword_tags)
  have g: "generate_hashtags plain_lib busy_item = take 5 (keyword_tags (hashtag_text plain_lib busy_item))"
    using generate_hashtags_cap [of plain_lib busy_item] k by blast
  have v: "generate_hashtags plain_lib busy_item =
     [[35, 1090, 1077, 1093, 1085, 1086, 1083, 1086, 1075, 1080, 1080], ascii ''#ai'',
      [35, 1080, 1075, 1088, 1099], [35, 1089, 1087, 1086, 1088, 1090],
      [35, 1082, 1091, 1083, 1100, 1090, 1091, 1088, 1072]]"
    unfolding g by (simp add: busy_text busy_keyword_tags)
  show ?thesis
    using k busy_domain_tags busy_lang_tags
    unfolding v by (simp add: ascii_def)
qed

subsection \<open>Publication queue\<close>

lemma commit_queue_item_queue:
  "queue (commit_queue_item q w) = map (\<lambda>r. if id_q r = id_q q then q else r) (queue w)"
  by (simp add: commit_queue_item_def)

lemma queue_record_publication: "queue (record_publication now c t m w) = queue w"
  by (simp add: record_publication_def split: option.splits)

lemma queue_publish_post: "queue (snd (publish_post T now c w)) = queue w"
  by (simp add: publish_post_def Let_def queue_record_publication split: sum.splits)

lemma deliver_id: "id_q (fst (deliver T now w item q)) = id_q q"
  by (simp add: deliver_def Let_def fail_with_def split: prod.splits)

lemma deliver_queue: "queue (snd (deliver T now w item q)) = queue w"
proof -
  have "queue w' = queue w" if "publish_post T now c w = (r, w')" for c r w'
    using queue_publish_post [of T now c w] that by simp
  then show ?thesis
    by (auto simp: deliver_def Let_def split: prod.splits)
qed

text \<open>What the delivery step does to a row that is being processed.\<close>

lemma deliver_cases:
  assumes "deliver T now w item q = (q', w')"
  shows "(type_q q = ''post'' \<and> status q' = ''completed'' \<and> attempts q' = attempts q) \<or>
         (type_q q = ''post'' \<and> status q' = ''failed'' \<and> attempts q' = attempts q + 1) \<or>
         (type_q q = ''story'' \<and> status q' = ''failed'' \<and> attempts q' = attempts q) \<or>
         (type_q q \<noteq> ''post'' \<and> type_q q \<noteq> ''story'' \<and> q' = q)"
  using assms
  by (auto simp: deliver_def Let_def fail_with_def split: if_splits prod.splits)

lemma process_queue_item_trace:
  "(\<exists>q1. fst (process_queue_item T now w q) = [q1] \<and> status q1 = ''failed'' \<and>
         attempts q1 = attempts q) \<or>
   (\<exists>q1 q2. fst (process_queue_item T now w q) = [q1, q2] \<and> type_q q1 = type_q q \<and>
         status q1 = ''processing'' \<and> attempts q1 = attempts q \<and>
         ((type_q q = ''post'' \<and> status q2 = ''completed'' \<and> attempts q2 = attempts q) \<or>
          (type_q q = ''post'' \<and> status q2 = ''failed'' \<and> attempts q2 = attempts q + 1) \<or>
          (type_q q = ''story'' \<and> status q2 = ''failed'' \<and> attempts q2 = attempts q) \<or>
          (type_q q \<noteq> ''post'' \<and> type_q q \<noteq> ''story'' \<and> q2 = q1)))"
proof (cases "find (\<lambda>i. id_i i = item_id q) (items w)")
  case None
  then show ?thesis
    by (simp add: process_queue_item_def Let_def)
next
  case (Some item)
  define q1 where "q1 = q\<lparr>status := ''processing'', last_attempt_at := Some now\<rparr>"
  obtain q2 w2 where d: "deliver T now (commit_queue_item q1 w) item q1 = (q2, w2)"
    by (cases "deliver T now (commit_queue_item q1 w) item q1")
  have tr: "fst (process_queue_item T now w q) = [q1, q2]"
    using Some d by (simp add: process_queue_item_def Let_def q1_def)
  have q1: "type_q q1 = type_q q" "status q1 = ''processing''" "attempts q1 = attempts q"
    by (simp_all add: q1_def)
  show ?thesis
    using deliver_cases [OF d] tr q1 by auto
qed

lemma map_replace_twice:
  "id_q q2 = id_q q \<Longrightarrow> id_q q1 = id_q q \<Longrightarrow>
   map (\<lambda>r. if id_q r = id_q q2 then q2 else r) (map (\<lambda>r. if id_q r = id_q q1 then q1 else r) xs)
     = map (\<lambda>r. if id_q r = id_q q then q2 else r) xs"
  by (induction xs) auto

text \<open>Processing a row replaces that row by its final state and leaves the others.\<close>

lemma process_queue_item_queue:
  "queue (snd (process_queue_item T now w q)) =
     map (\<lambda>r. if id_q r = id_q q then last (fst (process_queue_item T now w q)) else r) (queue w)"
proof (cases "find (\<lambda>i. id_i i = item_id q) (items w)")
  case None
  then show ?thesis
    by (simp add: process_queue_item_def Let_def commit_queue_item_queue)
next
  case (Some item)
  define q1 where "q1 = q\<lparr>status := ''processing'', last_attempt_at := Some now\<rparr>"
  obtain q2 w2 where d: "deliver T now (commit_queue_item q1 w) item q1 = (q2, w2)"
    by (cases "deliver T now (commit_queue_item q1 w) item q1")
  have i2: "id_q q2 = id_q q"
    using deliver_id [of T now "commit_queue_item q1 w" item q1] d by (simp add: q1_def)
  have qw2: "queue w2 = queue (commit_queue_item q1 w)"
    using deliver_queue [of T now "commit_queue_item q1 w" item q1] d by simp
  have "process_queue_item T now w q = ([q1, q2], commit_queue_item q2 w2)"
    using Some d by (simp add: process_queue_item_def Let_def q1_def)
  then show ?thesis
    using i2 qw2 map_replace_twice [of q2 q q1 "queue w"]
    by (simp add: commit_queue_item_queue q1_def)
qed

lemma process_queue_item_keeps:
  "r \<in> set (queue w) \<Longrightarrow> id_q r \<noteq> id_q q \<Longrightarrow> r \<in> set (queue (snd (process_queue_item T now w q)))"
  by (force simp: process_queue_item_queue)

lemma fold_process_keeps:
  "r \<in> set (queue w) \<Longrightarrow> \<forall>q\<in>set qs. id_q q \<noteq> id_q r \<Longrightarrow>
   r \<in> set (queue (fold (\<lambda>q w'. snd (process_queue_item T now w' q)) qs w))"
proof (induction qs arbitrary: w)
  case Nil
  then show ?case by simp
next
  case (Cons q qs)
  have "r \<in> set (queue (snd (process_queue_item T now w q)))"
    using Cons.prems by (intro process_queue_item_keeps) auto
  then show ?case
    using Cons.IH Cons.prems(2) by simp
qed

lemma pending_items_subset: "set (pending_items now w) \<subseteq> set (queue w)"
  by (auto simp: pending_items_def dest: in_set_takeD)

lemma pending_items_due: "q \<in> set (pending_items now w) \<Longrightarrow> is_due now q"
  by (auto simp: pending_items_def dest: in_set_takeD)

text \<open>A drain cycle leaves every row outside its batch as it is.\<close>

lemma process_queue_keeps:
  assumes "distinct (map id_q (queue w))" "r \<in> set (queue w)" "r \<notin> set (pending_items now w)"
  shows "r \<in> set (queue (process_queue T now w))"
proof -
  have "id_q q \<noteq> id_q r" if "q \<in> set (pending_items now w)" for q
  proof
    assume e: "id_q q = id_q r"
    have "q \<in> set (queue w)" using that pending_items_subset by blast
    with assms(1,2) e have "q = r" by (simp add: distinct_map inj_on_def)
    with that assms(3) show False by simp
  qed
  then show ?thesis
    unfolding process_queue_def using assms(2) by (intro fold_process_keeps) auto
qed

lemma terminal_not_due: "terminal q \<Longrightarrow> \<not> is_due now q"
  by (auto simp: terminal_def is_due_def)

lemma fold_max_ge: "(a::nat) \<le> fold max ids a \<and> (\<forall>i\<in>set ids. i \<le> fold max ids a)"
proof (induction ids arbitrary: a)
  case Nil
  then show ?case by simp
next
  case (Cons x xs)
  from Cons [of "max x a"] show ?case by auto
qed

lemma fresh_id_new: "fresh_id ids \<notin> set ids"
  using fold_max_ge [of 0 ids] by (auto simp: fresh_id_def)

lemma deliver_type: "type_q (fst (deliver T now w item q)) = type_q q"
  by (simp add: deliver_def Let_def fail_with_def split: prod.splits)

lemma process_queue_item_final:
  "id_q (last (fst (process_queue_item T now w q))) = id_q q \<and>
   type_q (last (fst (process_queue_item T now w q))) = type_q q \<and>
   (attempts (last (fst (process_queue_item T now w q))) = attempts q \<or>
    (attempts (last (fst (process_queue_item T now w q))) = attempts q + 1 \<and>
     status (last (fst (process_queue_item T now w q))) = ''failed''))"
proof (cases "find (\<lambda>i. id_i i = item_id q) (items w)")
  case None
  then show ?thesis
    by (simp add: process_queue_item_def Let_def)
next
  case (Some item)
  define q1 where "q1 = q\<lparr>status := ''processing'', last_attempt_at := Some now\<rparr>"
  obtain q2 w2 where d: "deliver T now (commit_queue_item q1 w) item q1 = (q2, w2)"
    by (cases "deliver T now (commit_queue_item q1 w) item q1")
  have tr: "last (fst (process_queue_item T now w q)) = q2"
    using Some d by (simp add: process_queue_item_def Let_def q1_def)
  have i: "id_q q2 = id_q q"
    using deliver_id [of T now "commit_queue_item q1 w" item q1] d by (simp add: q1_def)
  have t: "type_q q2 = type_q q"
    using deliver_type [of T now "commit_queue_item q1 w" item q1] d by (simp add: q1_def)
  have a: "attempts q2 = attempts q \<or> (attempts q2 = attempts q + 1 \<and> status q2 = ''failed'')"
    using deliver_cases [OF d] by (auto simp: q1_def)
  show ?thesis
    unfolding tr using i t a by simp
qed

lemma row_step_final:
  "status q = ''pending'' \<Longrightarrow> row_step c q (last (fst (process_queue_item T now w q)))"
  using process_queue_item_final [of T now w q] by (auto simp: row_step_def)

lemma row_step_refl: "row_step c r r"
  by (simp add: row_step_def)

lemma fold_process_rows:
  "distinct (map id_q (queue w)) \<Longrightarrow> distinct (map id_q qs) \<Longrightarrow> set qs \<subseteq> set (queue w) \<Longrightarrow>
   \<forall>q\<in>set qs. status q = ''pending'' \<Longrightarrow>
   \<exists>h. queue (fold (\<lambda>q w'. snd (process_queue_item T now w' q)) qs w) = map h (queue w) \<and>
       (\<forall>r\<in>set (queue w). (r \<in> set qs \<longrightarrow> row_step c r (h r)) \<and> (r \<notin> set qs \<longrightarrow> h r = r))"
proof (induction qs arbitrary: w)
  case Nil
  show ?case by (rule exI [of _ "\<lambda>r. r"]) simp
next
  case (Cons q qs)
  define fin where "fin = last (fst (process_queue_item T now w q))"
  define g where "g = (\<lambda>r. if id_q r = id_q q then fin else r)"
  define w1 where "w1 = snd (process_queue_item T now w q)"
  have qw1: "queue w1 = map g (queue w)"
    unfolding w1_def g_def fin_def by (rule process_queue_item_queue)
  have fin: "id_q fin = id_q q" "row_step c q fin"
    using process_queue_item_final [of T now w q] row_step_final [of q c T now w] Cons.prems(4)
    by (simp_all add: fin_def)
  have gid: "id_q (g r) = id_q r" for r
    by (simp add: g_def fin)
  have d1: "distinct (map id_q (queue w1))"
    using Cons.prems(1) by (simp add: qw1 gid comp_def)
  have other: "id_q r \<noteq> id_q q" if "r \<in> set qs" for r
    using Cons.prems(2) that by (auto simp: image_iff)
  have qin: "q \<in> set (queue w)"
    using Cons.prems(3) by simp
  have same: "r = q" if "r \<in> set (queue w)" "id_q r = id_q q" for r
    using Cons.prems(1) that qin by (simp add: distinct_map inj_on_def)
  have s1: "set qs \<subseteq> set (queue w1)"
  proof
    fix r assume r: "r \<in> set qs"
    then have "r \<in> set (queue w)" using Cons.prems(3) by auto
    moreover have "g r = r" using other [OF r] by (simp add: g_def)
    ultimately show "r \<in> set (queue w1)" by (force simp: qw1)
  qed
  from Cons.IH [OF d1 _ s1] Cons.prems(2,4)
  obtain h where h: "queue (fold (\<lambda>q w'. snd (process_queue_item T now w' q)) qs w1) = map h (queue w1)"
    and hr: "\<forall>r\<in>set (queue w1). (r \<in> set qs \<longrightarrow> row_step c r (h r)) \<and> (r \<notin> set qs \<longrightarrow> h r = r)"
    by auto
  have q: "queue (fold (\<lambda>q w'. snd (process_queue_item T now w' q)) (q # qs) w) = map (h \<circ> g) (queue w)"
    using h by (simp add: w1_def [symmetric] qw1)
  have "(r \<in> set (q # qs) \<longrightarrow> row_step c r ((h \<circ> g) r)) \<and> (r \<notin> set (q # qs) \<longrightarrow> (h \<circ> g) r = r)"
    if r: "r \<in> set (queue w)" for r
  proof (cases "id_q r = id_q q")
    case True
    then have rq: "r = q" using same r by simp
    have "fin \<notin> set qs" using other fin(1) by auto
    moreover have "fin \<in> set (queue w1)" using qin by (force simp: qw1 g_def)
    ultimately have "h fin = fin" using hr by simp
    then show ?thesis using rq fin(2) by (simp add: g_def)
  next
    case False
    then have g: "g r = r" by (simp add: g_def)
    then have "r \<in> set (queue w1)" using r by (force simp: qw1)
    then show ?thesis using hr g False by auto
  qed
  with q show ?case by blast
qed

lemma pending_items_distinct:
  "distinct (map id_q (queue w)) \<Longrightarrow> distinct (map id_q (pending_items now w))"
  using distinct_take [of "map id_q (filter (is_due now) (queue w))" 10]
    distinct_map_filter [of id_q "queue w" "is_due now"]
  by (simp add: pending_items_def take_map)

lemma pending_items_pending: "q \<in> set (pending_items now w) \<Longrightarrow> status q = ''pending''"
  using pending_items_due by (auto simp: is_due_def)

lemma process_queue_rows:
  assumes "distinct (map id_q (queue w))"
  shows "\<exists>h. queue (process_queue T now w) = map h (queue w) \<and> (\<forall>r\<in>set (queue w). row_step c r (h r))"
proof -
  from fold_process_rows [where w = w and qs = "pending_items now w" and T = T and now = now and c = c,
      OF assms pending_items_distinct [OF assms] pending_items_subset]
  obtain h where "queue (process_queue T now w) = map h (queue w)"
    "\<forall>r\<in>set (queue w). (r \<in> set (pending_items now w) \<longrightarrow> row_step c r (h r)) \<and>
        (r \<notin> set (pending_items now w) \<longrightarrow> h r = r)"
    using pending_items_pending unfolding process_queue_def by blast
  then show ?thesis
    using row_step_refl by metis
qed

lemma queue_add_to_queue:
  "\<exists>n. queue (add_to_queue now it t s w) = queue w @ [n] \<and> type_q n = t \<and> attempts n = 0 \<and>
       id_q n \<notin> set (map id_q (queue w))"
  using fresh_id_new [of "map id_q (queue w)"] by (simp add: add_to_queue_def)

lemma queue_ingest_item:
  "queue (ingest_item L A now fd fi w) = queue w \<or>
   (\<exists>it. queue (ingest_item L A now fd fi w) = queue (add_to_queue now it ''post'' None w))"
  by (auto simp: ingest_item_def Let_def send_to_moderation_def add_to_queue_def
      split: option.splits)

lemma fold_ingest_queue:
  "distinct (map id_q (queue w)) \<Longrightarrow>
   \<exists>new. queue (fold (ingest_item L A now fd) fis w) = queue w @ new \<and>
     (\<forall>n\<in>set new. type_q n = ''post'' \<and> attempts n = 0) \<and>
     distinct (map id_q (queue w @ new))"
proof (induction fis arbitrary: w)
  case Nil
  then show ?case by simp
next
  case (Cons fi fis)
  define w1 where "w1 = ingest_item L A now fd fi w"
  have "\<exists>n1. queue w1 = queue w @ n1 \<and> (\<forall>n\<in>set n1. type_q n = ''post'' \<and> attempts n = 0) \<and>
          distinct (map id_q (queue w @ n1))"
  proof -
    consider "queue w1 = queue w"
      | it where "queue w1 = queue (add_to_queue now it ''post'' None w)"
      using queue_ingest_item [of L A now fd fi w] unfolding w1_def by blast
    then show ?thesis
    proof cases
      case 1
      then show ?thesis using Cons.prems by (intro exI [of _ "[]"]) simp
    next
      case 2
      obtain n where "queue (add_to_queue now it ''post'' None w) = queue w @ [n]"
        "type_q n = ''post''" "attempts n = 0" "id_q n \<notin> set (map id_q (queue w))"
        using queue_add_to_queue by blast
      then show ?thesis using 2 Cons.prems by (intro exI [of _ "[n]"]) simp
    qed
  qed
  then obtain n1 where n1: "queue w1 = queue w @ n1"
    "\<forall>n\<in>set n1. type_q n = ''post'' \<and> attempts n = 0" "distinct (map id_q (queue w @ n1))"
    by blast
  have "distinct (map id_q (queue w1))" using n1 by simp
  from Cons.IH [OF this] obtain new where new:
    "queue (fold (ingest_item L A now fd) fis w1) = queue w1 @ new"
    "\<forall>n\<in>set new. type_q n = ''post'' \<and> attempts n = 0" "distinct (map id_q (queue w1 @ new))"
    by blast
  show ?case
    using n1 new by (intro exI [of _ "n1 @ new"]) (auto simp: w1_def [symmetric])
qed

lemma queue_mark_feed_ok: "queue (mark_feed_ok now fd w) = queue w"
  by (simp add: mark_feed_ok_def)

lemma queue_mark_feed_error: "queue (mark_feed_error now fd e w) = queue w"
  by (simp add: mark_feed_error_def)

lemma queue_poll_single_feed:
  "distinct (map id_q (queue w)) \<Longrightarrow>
   \<exists>new. queue (poll_single_feed L A now fd fetched w) = queue w @ new \<and>
     (\<forall>n\<in>set new. type_q n = ''post'' \<and> attempts n = 0) \<and>
     distinct (map id_q (queue w @ new))"
proof -
  assume d: "distinct (map id_q (queue w))"
  obtain ok fis e where f: "fetched = (ok, fis, e)" by (cases fetched)
  show ?thesis
  proof (cases ok)
    case True
    then show ?thesis
      using fold_ingest_queue [OF d, of L A now fd fis]
      by (simp add: poll_single_feed_def f queue_mark_feed_ok)
  next
    case False
    then show ?thesis
      using d by (intro exI [of _ "[]"]) (simp add: poll_single_feed_def f queue_mark_feed_error)
  qed
qed

lemma queue_create_digest: "queue (snd (create_digest T now w)) = queue w"
  by (simp add: create_digest_def create_digest_with_def create_digest_body_def item_word_count_def)

lemma queue_cleanup_old_data:
  "\<exists>P. queue (cleanup_old_data fails now w) = filter P (queue w)"
proof (cases "cleanup_body fails now w")
  case (Inl e)
  then have "queue (cleanup_old_data fails now w) = filter (\<lambda>q. True) (queue w)"
    by (simp add: cleanup_old_data_def)
  then show ?thesis by blast
next
  case (Inr w')
  then show ?thesis
    by (auto simp: cleanup_old_data_def cleanup_body_def store_step_def delete_marked_def Let_def
        split: option.splits)
qed

lemma queue_retry_decision:
  "\<exists>h. queue (retry_decision c i w) = map h (queue w) \<and> (\<forall>r\<in>set (queue w). row_step c r (h r))"
  unfolding retry_decision_def
  by (rule exI [of _ "\<lambda>q. if id_q q = i \<and> status q = ''failed'' \<and> attempts q < c
                          then q\<lparr>status := ''pending''\<rparr> else q"])
     (simp add: row_step_def)

text \<open>The shape of the queue after an operation other than a cleanup.\<close>

lemma op_shape:
  assumes "distinct (map id_q (queue w))" "\<not> is_cleanup op"
  shows "\<exists>old new. queue (apply_op c op w) = old @ new \<and> list_all2 (row_step c) (queue w) old \<and>
           (\<forall>n\<in>set new. type_q n = ''post'' \<and> attempts n = 0) \<and>
           distinct (map id_q (queue (apply_op c op w)))"
proof -
  have ids: "distinct (map (id_q \<circ> h) (queue w))"
    if "\<forall>r\<in>set (queue w). row_step c r (h r)" for h
  proof -
    have "map (id_q \<circ> h) (queue w) = map id_q (queue w)"
      using that by (simp add: row_step_def)
    then show ?thesis
      using assms(1) by metis
  qed
  have mapped: ?thesis
    if "queue (apply_op c op w) = map h (queue w)" "\<forall>r\<in>set (queue w). row_step c r (h r)" for h
    using that ids [OF that(2)]
    by - (rule exI [of _ "map h (queue w)"], rule exI [of _ "[]"],
          simp add: list_all2_map2 list_all2_same)
  have appended: ?thesis
    if "queue (apply_op c op w) = queue w @ new"
      "\<forall>n\<in>set new. type_q n = ''post'' \<and> attempts n = 0" "distinct (map id_q (queue w @ new))" for new
    using that
    by - (rule exI [of _ "queue w"], rule exI [of _ new], simp add: list_all2_same row_step_refl)
  show ?thesis
  proof (cases op)
    case (Drain T now)
    then show ?thesis using process_queue_rows [OF assms(1), of T now c] mapped by auto
  next
    case (Retry i)
    then show ?thesis using queue_retry_decision [of c i w] mapped by auto
  next
    case (Enqueue now it sched)
    obtain n where "queue (add_to_queue now it ''post'' sched w) = queue w @ [n]"
      "type_q n = ''post''" "attempts n = 0" "id_q n \<notin> set (map id_q (queue w))"
      using queue_add_to_queue by blast
    then show ?thesis using Enqueue assms(1) appended [of "[n]"] by simp
  next
    case (Poll L A now fd fetched)
    then show ?thesis using queue_poll_single_feed [OF assms(1), of L A now fd fetched] appended by auto
  next
    case (Digest T now)
    then show ?thesis using appended [of "[]"] assms(1) by (simp add: queue_create_digest)
  next
    case (Cleanup fails now)
    then show ?thesis using assms(2) by simp
  qed
qed

text \<open>Every row after an operation is a row before it after one step, or a new row.\<close>

lemma op_row_back:
  assumes "distinct (map id_q (queue w))" "r' \<in> set (queue (apply_op c op w))"
  shows "(\<exists>r\<in>set (queue w). row_step c r r') \<or> (type_q r' = ''post'' \<and> attempts r' = 0)"
proof (cases "is_cleanup op")
  case True
  then obtain fails now where "op = Cleanup fails now" by (cases op) simp_all
  then have "r' \<in> set (queue w)"
    using assms(2) queue_cleanup_old_data [of fails now w] by auto
  then show ?thesis using row_step_refl by blast
next
  case False
  from op_shape [OF assms(1) False, of c] obtain old new where s:
    "queue (apply_op c op w) = old @ new" "list_all2 (row_step c) (queue w) old"
    "\<forall>n\<in>set new. type_q n = ''post'' \<and> attempts n = 0"
    by blast
  show ?thesis
  proof (cases "r' \<in> set new")
    case True
    then show ?thesis using s(3) by blast
  next
    case False
    then have "r' \<in> set old" using assms(2) s(1) by simp
    then obtain j where "j < length old" "old ! j = r'" by (auto simp: in_set_conv_nth)
    then have "row_step c (queue w ! j) r'" "queue w ! j \<in> set (queue w)"
      using s(2) by (auto simp: list_all2_conv_all_nth)
    then show ?thesis by blast
  qed
qed

text \<open>The row with a given key after an operation is one step from the row with that key before it.\<close>

lemma op_row:
  assumes "distinct (map id_q (queue w))" "r \<in> set (queue w)"
    "r' \<in> set (queue (apply_op c op w))" "id_q r' = id_q r"
  shows "row_step c r r'"
proof -
  have same: "x = r" if "x \<in> set (queue w)" "id_q x = id_q r" for x
    using assms(1,2) that by (simp add: distinct_map inj_on_def)
  show ?thesis
  proof (cases "is_cleanup op")
    case True
    then obtain fails now where "op = Cleanup fails now" by (cases op) simp_all
    then have "r' \<in> set (queue w)"
      using assms(3) queue_cleanup_old_data [of fails now w] by auto
    then show ?thesis using same assms(4) row_step_refl by auto
  next
    case False
    from op_shape [OF assms(1) False, of c] obtain old new where s:
      "queue (apply_op c op w) = old @ new" "list_all2 (row_step c) (queue w) old"
      "distinct (map id_q (queue (apply_op c op w)))"
      by blast
    have len: "length old = length (queue w)" using s(2) by (simp add: list_all2_lengthD)
    have st: "row_step c (queue w ! j) (old ! j)" if "j < length old" for j
      using s(2) that by (simp add: list_all2_conv_all_nth)
    obtain k where k: "k < length (queue w)" "queue w ! k = r"
      using assms(2) by (auto simp: in_set_conv_nth)
    have ok: "id_q (old ! k) = id_q r" "old ! k \<in> set (queue (apply_op c op w))"
      using st [of k] k len by (simp_all add: row_step_def s(1))
    have "r' = old ! k"
      using s(3) assms(3,4) ok by (simp add: distinct_map inj_on_def)
    then show ?thesis using st [of k] k len by simp
  qed
qed

lemma op_written: "written_rows w \<Longrightarrow> written_rows (apply_op c op w)"
proof -
  assume w: "written_rows w"
  then have d: "distinct (map id_q (queue w))" and t: "\<forall>q\<in>set (queue w). type_q q = ''post''"
    by (simp_all add: written_rows_def list_all_iff)
  have types: "type_q r' = ''post''" if "r' \<in> set (queue (apply_op c op w))" for r'
    using op_row_back [OF d that] t by (auto simp: row_step_def)
  have "distinct (map id_q (queue (apply_op c op w)))"
  proof (cases "is_cleanup op")
    case True
    then obtain fails now where "op = Cleanup fails now" by (cases op) simp_all
    then show ?thesis
      using queue_cleanup_old_data [of fails now w] d by (auto simp: distinct_map_filter)
  next
    case False
    then show ?thesis using op_shape [OF d False, of c] by blast
  qed
  then show ?thesis using types by (simp add: written_rows_def list_all_iff)
qed

lemma op_within_ceiling:
  assumes "written_rows w" "within_ceiling c w" "0 < c"
  shows "within_ceiling c (apply_op c op w)"
  unfolding within_ceiling_def list_all_iff
proof (intro ballI disjCI)
  have d: "distinct (map id_q (queue w))" using assms(1) by (simp add: written_rows_def)
  fix r' assume r': "r' \<in> set (queue (apply_op c op w))" "\<not> terminal r'"
  show "attempts r' < c"
  proof (rule ccontr)
    assume "\<not> attempts r' < c"
    then have c: "c \<le> attempts r'" by simp
  have d: "distinct (map id_q (queue w))" using assms(1) by (simp add: written_rows_def)
    from op_row_back [OF d r'(1)] c assms(3)
    obtain r where r: "r \<in> set (queue w)" "row_step c r r'" by auto
    have inv: "attempts r < c \<or> terminal r"
      using assms(2) r(1) by (simp add: within_ceiling_def list_all_iff)
    show False
      using r(2) r'(2) c inv unfolding row_step_def terminal_def by auto
  qed
qed

lemma op_keeps_spent:
  assumes "distinct (map id_q (queue w))" "r \<in> set (queue w)" "terminal r" "c \<le> attempts r"
    "\<not> is_cleanup op"
  shows "r \<in> set (queue (apply_op c op w))"
proof -
  from op_shape [OF assms(1,5), of c] obtain old new where s:
    "queue (apply_op c op w) = old @ new" "list_all2 (row_step c) (queue w) old"
    by blast
  obtain k where k: "k < length (queue w)" "queue w ! k = r"
    using assms(2) by (auto simp: in_set_conv_nth)
  have "row_step c r (old ! k)" "k < length old"
    using s(2) k by (auto simp: list_all2_conv_all_nth)
  moreover have "x = r" if "row_step c r x" for x
    using that assms(3,4) by (auto simp: row_step_def terminal_def)
  ultimately show ?thesis using s(1) by (auto simp: in_set_conv_nth)
qed

lemma run_written: "written_rows w \<Longrightarrow> written_rows (fold (apply_op c) ops w)"
  by (induction ops arbitrary: w) (simp_all add: op_written)

lemma run_within_ceiling:
  "written_rows w \<Longrightarrow> within_ceiling c w \<Longrightarrow> 0 < c \<Longrightarrow> within_ceiling c (fold (apply_op c) ops w)"
  by (induction ops arbitrary: w) (simp_all add: op_written op_within_ceiling)

lemma run_keeps_spent:
  "written_rows w \<Longrightarrow> r \<in> set (queue w) \<Longrightarrow> terminal r \<Longrightarrow> c \<le> attempts r \<Longrightarrow>
   \<forall>op\<in>set ops. \<not> is_cleanup op \<Longrightarrow> r \<in> set (queue (fold (apply_op c) ops w))"
proof (induction ops arbitrary: w)
  case Nil
  then show ?case by simp
next
  case (Cons op ops)
  have "r \<in> set (queue (apply_op c op w))"
    using Cons.prems by (intro op_keeps_spent) (simp_all add: written_rows_def)
  then show ?case
    using Cons.IH [of "apply_op c op w"] Cons.prems op_written by simp
qed

lemma queued_post:
  "add_to_queue 0 stored_item ''post'' None (queue_world []) = queue_world [queue_row 1 ''post'' None 0]"
  by (simp add: add_to_queue_def queue_world_def queue_row_def fresh_id_def stored_item_def)

lemma first_failure:
  "process_queue telegram_down 100 (queue_world [queue_row 1 ''post'' None 0]) = tried 1"
  by (simp add: process_queue_def pending_items_def is_due_def process_queue_item_def deliver_def
        publish_post_def get_setting_def commit_queue_item_def queue_world_def queue_row_def
        stored_item_def telegram_down_def fail_with_def item_post_call_def Let_def tried_def
        tried_row_def)

lemma next_failure:
  "n < 3 \<Longrightarrow> process_queue telegram_down 100 (retry_decision 3 1 (tried n)) = tried (Suc n)"
  by (simp add: retry_decision_def process_queue_def pending_items_def is_due_def
        process_queue_item_def deliver_def
        publish_post_def get_setting_def commit_queue_item_def queue_row_def
        stored_item_def telegram_down_def fail_with_def item_post_call_def Let_def tried_def
        tried_row_def replicate_append_same)

lemma three_failures_run: "fold (apply_op 3) three_failures (queue_world []) = tried 3"
proof -
  have a: "process_queue telegram_down 100 (retry_decision 3 1 (tried 1)) = tried 2"
    using next_failure [of 1] by (simp add: numeral_2_eq_2)
  have b: "process_queue telegram_down 100 (retry_decision 3 1 (tried 2)) = tried 3"
    using next_failure [of 2] by (simp add: numeral_3_eq_3 numeral_2_eq_2)
  show ?thesis
    by (simp only: three_failures_def fold_Cons fold_Nil o_apply id_apply apply_op.simps
          queued_post first_failure a b)
qed

lemma rearmed_trace:
  "fst (process_queue_item telegram_down 100 (retry_decision 3 1 (tried 2))
         ((tried_row 2)\<lparr>status := ''pending''\<rparr>)) =
     [(tried_row 2)\<lparr>status := ''processing''\<rparr>, tried_row 3]"
  by (simp add: retry_decision_def process_queue_item_def deliver_def
        publish_post_def get_setting_def commit_queue_item_def queue_row_def
        stored_item_def telegram_down_def fail_with_def item_post_call_def Let_def tried_def
        tried_row_def)

text \<open>
  Claim C3. Starting from an empty queue, every run of operations (drain cycles,
  retry decisions, queued posts, polls, digests, cleanups) leaves a queue of posts
  with distinct keys, and with a positive ceiling every row whose attempt count has
  reached the ceiling is \<open>completed\<close> or \<open>failed\<close>. On such a queue:
  \<^item> while a row is processed, each transition from \<open>processing\<close> to \<open>failed\<close> adds
    exactly one to the attempt count, and no commit of \<open>_process_queue_item\<close>
    lowers the count;
  \<^item> no operation lowers the attempt count of a row, and an operation that raises
    it raises it by one and leaves the row \<open>failed\<close>;
  \<^item> a positive ceiling is kept by every operation;
  \<^item> a row that is \<open>completed\<close> or \<open>failed\<close> with the ceiling reached stays in the
    queue as it is through every run of operations other than a cleanup, and no
    drain cycle selects it; a cleanup only deletes rows.
\<close>

theorem queue_attempts_ceiling:
  "(queue w0 = [] \<longrightarrow>
      written_rows (fold (apply_op c) ops w0) \<and>
      (0 < c \<longrightarrow> within_ceiling c (fold (apply_op c) ops w0))) \<and>
   (written_rows w \<longrightarrow> q \<in> set (queue w) \<longrightarrow>
      (\<forall>i. Suc i < length (fst (process_queue_item T now w q)) \<longrightarrow>
           status (fst (process_queue_item T now w q) ! i) = ''processing'' \<longrightarrow>
           status (fst (process_queue_item T now w q) ! Suc i) = ''failed'' \<longrightarrow>
           attempts (fst (process_queue_item T now w q) ! Suc i) =
             attempts (fst (process_queue_item T now w q) ! i) + 1)) \<and>
   sorted (map attempts (q # fst (process_queue_item T now w q))) \<and>
   (written_rows w \<longrightarrow> written_rows (apply_op c op w) \<and> attempts_kept w (apply_op c op w)) \<and>
   (written_rows w \<longrightarrow> r \<in> set (queue w) \<longrightarrow> r' \<in> set (queue (apply_op c op w)) \<longrightarrow>
      id_q r' = id_q r \<longrightarrow> attempts r < attempts r' \<longrightarrow>
      attempts r' = attempts r + 1 \<and> status r' = ''failed'') \<and>
   (written_rows w \<longrightarrow> 0 < c \<longrightarrow> within_ceiling c w \<longrightarrow> within_ceiling c (apply_op c op w)) \<and>
   (written_rows w \<longrightarrow> r \<in> set (queue w) \<longrightarrow> terminal r \<longrightarrow> c \<le> attempts r \<longrightarrow>
      (\<forall>op\<in>set later. \<not> is_cleanup op) \<longrightarrow>
      r \<in> set (queue (fold (apply_op c) later w)) \<and>
      (\<forall>t. r \<notin> set (pending_items t (fold (apply_op c) later w)))) \<and>
   set (queue (cleanup_old_data fails now w)) \<subseteq> set (queue w)"
proof (intro conjI impI)
  let ?tr = "fst (process_queue_item T now w q)"
  note tr = process_queue_item_trace [of T now w q]
  show "sorted (map attempts (q # ?tr))"
    using tr by auto
  show "\<forall>i. Suc i < length ?tr \<longrightarrow> status (?tr ! i) = ''processing'' \<longrightarrow>
        status (?tr ! Suc i) = ''failed'' \<longrightarrow> attempts (?tr ! Suc i) = attempts (?tr ! i) + 1"
    if "written_rows w" "q \<in> set (queue w)"
  proof -
    have "type_q q = ''post''"
      using that by (simp add: written_rows_def list_all_iff)
    then show ?thesis
      using tr by (auto simp: less_Suc_eq)
  qed
  show "set (queue (cleanup_old_data fails now w)) \<subseteq> set (queue w)"
    using queue_cleanup_old_data [of fails now w] by auto
next
  assume e: "queue w0 = []"
  then have w0: "written_rows w0" "within_ceiling c w0"
    by (simp_all add: written_rows_def within_ceiling_def)
  show "written_rows (fold (apply_op c) ops w0)"
    using w0 by (intro run_written)
  show "within_ceiling c (fold (apply_op c) ops w0)" if "0 < c"
    using w0 that by (intro run_within_ceiling)
next
  assume w: "written_rows w"
  then have d: "distinct (map id_q (queue w))"
    by (simp add: written_rows_def)
  show "written_rows (apply_op c op w)"
    using w by (rule op_written)
  show "attempts_kept w (apply_op c op w)"
    unfolding attempts_kept_def
  proof (intro ballI impI)
    fix x x' assume "x \<in> set (queue w)" "x' \<in> set (queue (apply_op c op w))" "id_q x' = id_q x"
    then have "row_step c x x'" using d by (intro op_row)
    then show "attempts x \<le> attempts x'" by (auto simp: row_step_def)
  qed
  show "within_ceiling c (apply_op c op w)" if "0 < c" "within_ceiling c w"
    using w that by (intro op_within_ceiling)
next
  assume w: "written_rows w" and r: "r \<in> set (queue w)" "r' \<in> set (queue (apply_op c op w))"
    "id_q r' = id_q r" "attempts r < attempts r'"
  have "row_step c r r'"
    using w r(1-3) by (intro op_row) (simp_all add: written_rows_def)
  then have "attempts r' = attempts r + 1 \<and> status r' = ''failed''"
    using r(4) by (auto simp: row_step_def)
  then show "attempts r' = attempts r + 1" "status r' = ''failed''"
    by simp_all
next
  assume w: "written_rows w" and r: "r \<in> set (queue w)" "terminal r" "c \<le> attempts r"
    "\<forall>op\<in>set later. \<not> is_cleanup op"
  show "r \<in> set (queue (fold (apply_op c) later w))"
    using w r by (intro run_keeps_spent)
  show "\<forall>t. r \<notin> set (pending_items t (fold (apply_op c) later w))"
    using r(2) terminal_not_due pending_items_due by blast
qed

text \<open>
  With the ceiling at 3: the post fails three times, re-armed after the first and
  the second failure; the third failure takes the count from 2 to 3; after it the
  row is \<open>failed\<close> with three attempts, and a further retry decision and a drain
  cycle with the publisher up leave it as it is.
\<close>

theorem queue_attempts_ceiling_witness:
  "queue (queue_world []) = [] \<and>
   fold (apply_op 3) three_failures (queue_world []) = tried 3 \<and>
   written_rows (tried 3) \<and> within_ceiling 3 (tried 3) \<and>
   written_rows (retry_decision 3 1 (tried 2)) \<and>
   (tried_row 2)\<lparr>status := ''pending''\<rparr> \<in> set (queue (retry_decision 3 1 (tried 2))) \<and>
   map status (fst (process_queue_item telegram_down 100 (retry_decision 3 1 (tried 2))
                      ((tried_row 2)\<lparr>status := ''pending''\<rparr>))) = [''processing'', ''failed''] \<and>
   map attempts (fst (process_queue_item telegram_down 100 (retry_decision 3 1 (tried 2))
                        ((tried_row 2)\<lparr>status := ''pending''\<rparr>))) = [2, 3] \<and>
   tried_row 3 \<in> set (queue (tried 3)) \<and> terminal (tried_row 3) \<and> attempts (tried_row 3) = 3 \<and>
   tried_row 3 \<in> set (queue (fold (apply_op 3) [Retry 1, Drain telegram_up 200] (tried 3))) \<and>
   tried_row 3 \<notin> set (pending_items 200 (fold (apply_op 3) [Retry 1, Drain telegram_up 200] (tried 3)))"
proof -
  let ?w = "retry_decision 3 1 (tried 2)"
  let ?q = "(tried_row 2)\<lparr>status := ''pending''\<rparr>"
  let ?tr = "fst (process_queue_item telegram_down 100 ?w ?q)"
  have e: "queue (queue_world []) = []"
    by (simp add: queue_world_def)
  have inv: "written_rows (tried 3) \<and> within_ceiling 3 (tried 3)"
    using queue_attempts_ceiling [where ?w0.0 = "queue_world []" and c = 3 and ops = three_failures] e
    unfolding three_failures_run by simp
  have q: "?q \<in> set (queue ?w)"
    by (simp add: retry_decision_def tried_def tried_row_def queue_row_def)
  have w: "written_rows ?w"
    using queue_attempts_ceiling [where w = "tried 2" and c = 3 and op = "Retry 1"]
    by (simp add: written_rows_def tried_def tried_row_def queue_row_def)
  have s: "map status ?tr = [''processing'', ''failed'']"
    unfolding rearmed_trace by (simp add: tried_row_def)
  have "attempts (?tr ! Suc 0) = attempts (?tr ! 0) + 1"
    using queue_attempts_ceiling [where w = ?w and q = ?q and T = telegram_down and now = 100] w q
    unfolding rearmed_trace by (simp add: tried_row_def)
  then have a: "map attempts ?tr = [2, 3]"
    unfolding rearmed_trace by (simp add: tried_row_def)
  have r: "tried_row 3 \<in> set (queue (tried 3))" "terminal (tried_row 3)" "attempts (tried_row 3) = 3"
    by (simp_all add: tried_def tried_row_def terminal_def)
  have k: "tried_row 3 \<in> set (queue (fold (apply_op 3) [Retry 1, Drain telegram_up 200] (tried 3))) \<and>
     tried_row 3 \<notin> set (pending_items 200 (fold (apply_op 3) [Retry 1, Drain telegram_up 200] (tried 3)))"
    using queue_attempts_ceiling [where w = "tried 3" and r = "tried_row 3" and c = 3
        and later = "[Retry 1, Drain telegram_up 200]"] inv r
    by simp
  show ?thesis
    using e inv q w s a r k unfolding three_failures_run by simp
qed

text \<open>
  Claim C5, as amended. The batch of a drain cycle holds only rows that are
  \<open>pending\<close> and whose \<open>scheduled_at\<close> is null or not after the current time; it
  holds at most ten rows; they are the first due rows in the store's row order (the
  query has no ordering); and the cycle leaves every row outside the batch as it is.
\<close>

theorem drain_batch:
  "(\<forall>q\<in>set (pending_items now w).
      status q = ''pending'' \<and>
      (scheduled_at q = None \<or> (\<exists>t. scheduled_at q = Some t \<and> t \<le> now))) \<and>
   length (pending_items now w) \<le> 10 \<and>
   prefix (pending_items now w) (filter (is_due now) (queue w)) \<and>
   (distinct (map id_q (queue w)) \<longrightarrow>
      (\<forall>r\<in>set (queue w). r \<notin> set (pending_items now w) \<longrightarrow>
         r \<in> set (queue (process_queue T now w))))"
proof (intro conjI)
  show "\<forall>q\<in>set (pending_items now w).
      status q = ''pending'' \<and>
      (scheduled_at q = None \<or> (\<exists>t. scheduled_at q = Some t \<and> t \<le> now))"
  proof
    fix q
    assume "q \<in> set (pending_items now w)"
    then have "is_due now q" by (rule pending_items_due)
    then show "status q = ''pending'' \<and>
      (scheduled_at q = None \<or> (\<exists>t. scheduled_at q = Some t \<and> t \<le> now))"
      by (cases "scheduled_at q") (simp_all add: is_due_def)
  qed
  show "length (pending_items now w) \<le> 10"
    by (simp add: pending_items_def)
  show "prefix (pending_items now w) (filter (is_due now) (queue w))"
    by (simp add: pending_items_def take_is_prefix)
  show "distinct (map id_q (queue w)) \<longrightarrow>
      (\<forall>r\<in>set (queue w). r \<notin> set (pending_items now w) \<longrightarrow>
         r \<in> set (queue (process_queue T now w)))"
    using process_queue_keeps by blast
qed

lemma backlog_batch: "pending_items 7260 (queue_world backlog) = take 10 backlog"
  by (simp add: pending_items_def queue_world_def backlog_def is_due_def queue_row_def)

theorem drain_batch_witness:
  "distinct (map id_q (queue (queue_world backlog))) \<and>
   queue_row 11 ''post'' (Some 1900) 100 \<in> set (queue (queue_world backlog)) \<and>
   queue_row 11 ''post'' (Some 1900) 100 \<notin> set (pending_items 7260 (queue_world backlog)) \<and>
   length (pending_items 7260 (queue_world backlog)) = 10 \<and>
   status (queue_row 1 ''post'' (Some 7200) 0) = ''pending'' \<and>
   queue_row 1 ''post'' (Some 7200) 0 \<in> set (pending_items 7260 (queue_world backlog)) \<and>
   queue_row 11 ''post'' (Some 1900) 100
     \<in> set (queue (process_queue telegram_up 7260 (queue_world backlog)))"
proof -
  have d: "distinct (map id_q (queue (queue_world backlog)))"
    by (simp add: queue_world_def backlog_def queue_row_def)
  have m: "queue_row 11 ''post'' (Some 1900) 100 \<in> set (queue (queue_world backlog))"
    by (simp add: queue_world_def backlog_def)
  have n: "queue_row 11 ''post'' (Some 1900) 100 \<notin> set (pending_items 7260 (queue_world backlog))"
    unfolding backlog_batch by (simp add: backlog_def queue_row_def)
  have f: "queue_row 1 ''post'' (Some 7200) 0 \<in> set (pending_items 7260 (queue_world backlog))"
    unfolding backlog_batch by (simp add: backlog_def)
  have l: "length (pending_items 7260 (queue_world backlog)) = 10"
    unfolding backlog_batch by (simp add: backlog_def)
  have "queue_row 11 ''post'' (Some 1900) 100
          \<in> set (queue (process_queue telegram_up 7260 (queue_world backlog)))"
    using drain_batch [of 7260 "queue_world backlog" telegram_up] d m n by blast
  then show ?thesis
    using d m n f l by (simp add: queue_row_def)
qed

text \<open>
  Claim C5 as stated fails on the backlog: the batch is the first ten rows, due
  since 7200, and the row left out has been due since 1900.
\<close>

theorem drain_not_oldest_due_first:
  "\<not> oldest_due_first 7260 (queue_world backlog) (pending_items 7260 (queue_world backlog))"
proof
  assume o: "oldest_due_first 7260 (queue_world backlog) (pending_items 7260 (queue_world backlog))"
  let ?s = "queue_row 1 ''post'' (Some 7200) 0"
  let ?r = "queue_row 11 ''post'' (Some 1900) 100"
  have s: "?s \<in> set (pending_items 7260 (queue_world backlog))"
    unfolding backlog_batch by (simp add: backlog_def)
  have r: "?r \<in> set (filter (is_due 7260) (queue (queue_world backlog)))"
    by (simp add: queue_world_def backlog_def is_due_def queue_row_def)
  have n: "?r \<notin> set (pending_items 7260 (queue_world backlog))"
    unfolding backlog_batch by (simp add: backlog_def queue_row_def)
  have "due_time ?s \<le> due_time ?r"
    using o s r n unfolding oldest_due_first_def by blast
  then show False
    by (simp add: due_time_def queue_row_def)
qed

subsection \<open>Ingest gate\<close>

lemma guid_normalize_item: "guid (normalize_item L d) = guid d"
  by (simp add: normalize_item_def Let_def split: option.splits)

lemma items_add_to_queue: "items (add_to_queue now it t s w) = items w"
  by (simp add: add_to_queue_def)

lemma items_send_to_moderation: "items (send_to_moderation A it w) = items w"
  by (simp add: send_to_moderation_def)

lemma ingest_item_settled: "settled L fd (items w) fi \<Longrightarrow> ingest_item L A now fd fi w = w"
  by (auto simp: settled_def ingest_item_def Let_def split: option.splits)

lemma ingest_item_items:
  "items (ingest_item L A now fd fi w) = items w \<or>
   (\<exists>h. find (\<lambda>i. feed_id_i i = id_fd fd \<and> guid_i i = guid fi) (items w) = None \<and>
        content_hash (normalize_item L (to_dict fi (id_fd fd))) = Some h \<and>
        items (ingest_item L A now fd fi w) =
          items w @ [new_db_item now fd (normalize_item L (to_dict fi (id_fd fd))) h w])"
  by (auto simp: ingest_item_def Let_def items_add_to_queue items_send_to_moderation
           split: option.splits)

lemma ingest_item_prefix: "prefix (items w) (items (ingest_item L A now fd fi w))"
  using ingest_item_items [of L A now fd fi w] by auto

lemma fold_ingest_prefix: "prefix (items w) (items (fold (ingest_item L A now fd) fis w))"
proof (induction fis arbitrary: w)
  case Nil
  then show ?case by simp
next
  case (Cons fi fis)
  show ?case
    using ingest_item_prefix [of w L A now fd fi] Cons.IH [of "ingest_item L A now fd fi w"]
    by (auto intro: prefix_order.trans)
qed

lemma find_prefix_Some: "prefix xs ys \<Longrightarrow> find P xs \<noteq> None \<Longrightarrow> find P ys \<noteq> None"
  by (auto simp: prefix_def find_None_iff)

lemma settled_mono: "settled L fd xs fi \<Longrightarrow> prefix xs ys \<Longrightarrow> settled L fd ys fi"
  unfolding settled_def using find_prefix_Some [of xs ys] by auto

lemma new_db_item_key:
  "feed_id_i (new_db_item now fd n h w) = id_fd fd" "guid_i (new_db_item now fd n h w) = guid n"
  by (simp_all add: new_db_item_def)

lemma to_dict_guid: "guid (to_dict fi k) = guid fi"
  by (simp add: to_dict_def)

lemma ingest_item_settles: "settled L fd (items (ingest_item L A now fd fi w)) fi"
proof (cases "settled L fd (items w) fi")
  case True
  then show ?thesis by (simp add: ingest_item_settled)
next
  case False
  then obtain h where
    "items (ingest_item L A now fd fi w) =
       items w @ [new_db_item now fd (normalize_item L (to_dict fi (id_fd fd))) h w]"
    using ingest_item_items [of L A now fd fi w]
    by (auto simp: settled_def ingest_item_def Let_def items_add_to_queue items_send_to_moderation
             split: option.splits)
  then show ?thesis
    using new_db_item_key [of now fd "normalize_item L (to_dict fi (id_fd fd))" h w]
    by (auto simp: settled_def find_None_iff guid_normalize_item to_dict_guid)
qed

lemma fold_ingest_settles:
  "fi \<in> set fis \<Longrightarrow> settled L fd (items (fold (ingest_item L A now fd) fis w)) fi"
proof (induction fis arbitrary: w)
  case Nil
  then show ?case by simp
next
  case (Cons x xs)
  show ?case
  proof (cases "fi = x")
    case True
    have "settled L fd (items (ingest_item L A now fd x w)) x"
      by (rule ingest_item_settles)
    then show ?thesis
      using True fold_ingest_prefix [of "ingest_item L A now fd x w" L A now fd xs]
      by (auto intro: settled_mono)
  next
    case False
    with Cons.prems have "fi \<in> set xs" by simp
    then show ?thesis using Cons.IH by simp
  qed
qed

lemma fold_ingest_settled_id:
  "\<forall>fi\<in>set fis. settled L fd (items w) fi \<Longrightarrow> fold (ingest_item L A now fd) fis w = w"
  by (induction fis) (simp_all add: ingest_item_settled)

lemma items_mark_feed_ok: "items (mark_feed_ok now fd w) = items w"
  by (simp add: mark_feed_ok_def)

lemma items_mark_feed_error: "items (mark_feed_error now fd e w) = items w"
  by (simp add: mark_feed_error_def)

lemma fold_ingest_ignores_feeds:
  "fold (ingest_item L A now fd) fis (w\<lparr>feeds := f\<rparr>) = (fold (ingest_item L A now fd) fis w)\<lparr>feeds := f\<rparr>"
proof (induction fis arbitrary: w)
  case Nil
  then show ?case by simp
next
  case (Cons x xs)
  have "ingest_item L A now fd x (w\<lparr>feeds := f\<rparr>) = (ingest_item L A now fd x w)\<lparr>feeds := f\<rparr>"
    by (simp add: ingest_item_def Let_def get_setting_def send_to_moderation_def add_to_queue_def
          new_db_item_def split: option.splits)
  then show ?case using Cons.IH by simp
qed

lemma second_poll:
  "items (poll_single_feed L A now2 fd fetched (poll_single_feed L A now1 fd fetched w)) =
     items (poll_single_feed L A now1 fd fetched w) \<and>
   queue (poll_single_feed L A now2 fd fetched (poll_single_feed L A now1 fd fetched w)) =
     queue (poll_single_feed L A now1 fd fetched w) \<and>
   moderation_previews (poll_single_feed L A now2 fd fetched (poll_single_feed L A now1 fd fetched w)) =
     moderation_previews (poll_single_feed L A now1 fd fetched w)"
proof (cases fetched)
  case (fields success fis err)
  show ?thesis
  proof (cases success)
    case False
    then show ?thesis
      by (simp add: fields poll_single_feed_def mark_feed_error_def)
  next
    case True
    define v where "v = fold (ingest_item L A now1 fd) fis w"
    define w1 where "w1 = poll_single_feed L A now1 fd fetched w"
    have w1: "w1 = mark_feed_ok now1 fd v"
      by (simp add: w1_def fields True poll_single_feed_def v_def)
    have "\<forall>fi\<in>set fis. settled L fd (items v) fi"
      unfolding v_def using fold_ingest_settles by blast
    then have "fold (ingest_item L A now2 fd) fis v = v"
      by (rule fold_ingest_settled_id)
    then have "fold (ingest_item L A now2 fd) fis w1 = w1"
      unfolding w1 mark_feed_ok_def by (simp add: fold_ingest_ignores_feeds)
    then have "poll_single_feed L A now2 fd fetched w1 = mark_feed_ok now2 fd w1"
      by (simp add: fields True poll_single_feed_def)
    then show ?thesis unfolding w1_def [symmetric] by (simp add: mark_feed_ok_def)
  qed
qed

lemma ingest_item_distinct:
  assumes "distinct (map item_key (items w))"
  shows "distinct (map item_key (items (ingest_item L A now fd fi w)))"
proof -
  consider "items (ingest_item L A now fd fi w) = items w"
    | h where "find (\<lambda>i. feed_id_i i = id_fd fd \<and> guid_i i = guid fi) (items w) = None"
        "items (ingest_item L A now fd fi w) =
          items w @ [new_db_item now fd (normalize_item L (to_dict fi (id_fd fd))) h w]"
    using ingest_item_items [of L A now fd fi w] by blast
  then show ?thesis
  proof cases
    case 1
    then show ?thesis using assms by simp
  next
    case 2
    have "(id_fd fd, guid fi) \<notin> item_key ` set (items w)"
      using 2(1) by (auto simp: find_None_iff item_key_def)
    then show ?thesis
      using assms 2(2)
      by (simp add: item_key_def new_db_item_key guid_normalize_item to_dict_guid)
  qed
qed

lemma fold_ingest_distinct:
  "distinct (map item_key (items w)) \<Longrightarrow>
   distinct (map item_key (items (fold (ingest_item L A now fd) fis w)))"
  by (induction fis arbitrary: w) (simp_all add: ingest_item_distinct)

lemma poll_distinct:
  "distinct (map item_key (items w)) \<Longrightarrow>
   distinct (map item_key (items (poll_single_feed L A now fd fetched w)))"
  by (cases fetched)
     (simp add: poll_single_feed_def items_mark_feed_ok items_mark_feed_error fold_ingest_distinct)

lemma hash_content_ascii: "utf8_encode s = Some m \<Longrightarrow> hash_content s = Some (hexdigest (sha256 m))"
  by (simp add: hash_content_def)

lemma settings_ingest_item: "settings (ingest_item L A now fd fi w) = settings w"
  by (simp add: ingest_item_def Let_def send_to_moderation_def add_to_queue_def
        split: option.splits)

lemma get_setting_cong: "settings w' = settings w \<Longrightarrow> get_setting w' k = get_setting w k"
  by (simp add: get_setting_def)

text \<open>What storing one new entry does to the queue and to the moderation previews.\<close>

lemma ingest_item_new:
  assumes "items (ingest_item L A now fd fi w) \<noteq> items w"
  shows "\<exists>it. items (ingest_item L A now fd fi w) = items w @ [it] \<and>
     (if get_setting w ''moderation_enabled'' = Some ''true''
      then queue (ingest_item L A now fd fi w) = queue w \<and>
           moderation_previews (ingest_item L A now fd fi w) =
             (if A = [] then moderation_previews w else moderation_previews w @ [(id_i it, A)])
      else moderation_previews (ingest_item L A now fd fi w) = moderation_previews w \<and>
           (\<exists>q. queue (ingest_item L A now fd fi w) = queue w @ [q] \<and> item_id q = id_i it \<and>
                status q = ''pending'' \<and> attempts q = 0 \<and> type_q q = ''post'' \<and>
                scheduled_at q = None))"
  using assms
  by (auto simp: ingest_item_def Let_def get_setting_def send_to_moderation_def add_to_queue_def
           split: option.splits)

lemma ingest_item_same:
  "items (ingest_item L A now fd fi w) = items w \<Longrightarrow> ingest_item L A now fd fi w = w"
  by (auto simp: ingest_item_def Let_def send_to_moderation_def add_to_queue_def
           split: option.splits if_splits)

lemma fold_ingest_counts:
  "(get_setting w ''moderation_enabled'' = Some ''true'' \<longrightarrow>
      queue (fold (ingest_item L A now fd) fis w) = queue w) \<and>
   (get_setting w ''moderation_enabled'' \<noteq> Some ''true'' \<longrightarrow>
      length (queue (fold (ingest_item L A now fd) fis w)) + length (items w) =
      length (items (fold (ingest_item L A now fd) fis w)) + length (queue w))"
proof (induction fis arbitrary: w)
  case Nil
  then show ?case by simp
next
  case (Cons fi fis)
  let ?v = "ingest_item L A now fd fi w"
  have s: "get_setting ?v ''moderation_enabled'' = get_setting w ''moderation_enabled''"
    by (rule get_setting_cong) (rule settings_ingest_item)
  have step: "(get_setting w ''moderation_enabled'' = Some ''true'' \<longrightarrow> queue ?v = queue w) \<and>
    (get_setting w ''moderation_enabled'' \<noteq> Some ''true'' \<longrightarrow>
       length (queue ?v) + length (items w) = length (items ?v) + length (queue w))"
  proof (cases "items ?v = items w")
    case True
    then show ?thesis by (simp add: ingest_item_same)
  next
    case False
    from ingest_item_new [OF False] show ?thesis
      by (auto split: if_splits)
  qed
  show ?case
    using Cons.IH [of ?v] step s by auto
qed

text \<open>
  Within one process the gate holds: polling twice with the same fetched entries
  stores nothing new the second time, an entry whose key is found is skipped, and
  items with pairwise distinct keys stay so.
\<close>

lemma same_entries_second_poll:
  "items (poll_single_feed L A later fd fetched (poll_single_feed L A now fd fetched w)) =
     items (poll_single_feed L A now fd fetched w) \<and>
   queue (poll_single_feed L A later fd fetched (poll_single_feed L A now fd fetched w)) =
     queue (poll_single_feed L A now fd fetched w) \<and>
   ((\<exists>i\<in>set (items w). feed_id_i i = id_fd fd \<and> guid_i i = guid fi) \<longrightarrow>
      ingest_item L A now fd fi w = w) \<and>
   (distinct (map item_key (items w)) \<longrightarrow>
      distinct (map item_key (items (poll_single_feed L A now fd fetched w))))"
proof (intro conjI)
  show "(\<exists>i\<in>set (items w). feed_id_i i = id_fd fd \<and> guid_i i = guid fi) \<longrightarrow>
      ingest_item L A now fd fi w = w"
    by (auto simp: ingest_item_def find_None_iff split: option.splits)
qed (use second_poll [of L A later fd fetched now w] poll_distinct in blast)+

text \<open>
  Claim C2. When the gate stores a new item: with \<open>moderation_enabled\<close> set to
  \<open>true\<close> the queue is left as it is and the item is previewed for the
  administrators (when there are any); with any other value, \<open>false\<close> included, the
  queue gains exactly one row, which refers to the new item, is \<open>pending\<close>, has no
  attempts and is an unscheduled post. Over a whole poll: with moderation on the
  queue does not change, and otherwise it grows by exactly as many rows as items
  were stored.
\<close>

theorem moderation_gate:
  "(items (ingest_item L A now fd fi w) \<noteq> items w \<longrightarrow>
      (\<exists>it. items (ingest_item L A now fd fi w) = items w @ [it] \<and>
         (get_setting w ''moderation_enabled'' = Some ''true'' \<longrightarrow>
            queue (ingest_item L A now fd fi w) = queue w \<and>
            (A \<noteq> [] \<longrightarrow> moderation_previews (ingest_item L A now fd fi w) =
                         moderation_previews w @ [(id_i it, A)])) \<and>
         (get_setting w ''moderation_enabled'' \<noteq> Some ''true'' \<longrightarrow>
            moderation_previews (ingest_item L A now fd fi w) = moderation_previews w \<and>
            (\<exists>q. queue (ingest_item L A now fd fi w) = queue w @ [q] \<and> item_id q = id_i it \<and>
                 status q = ''pending'' \<and> attempts q = 0 \<and> type_q q = ''post'' \<and>
                 scheduled_at q = None)))) \<and>
   (get_setting w ''moderation_enabled'' = Some ''true'' \<longrightarrow>
      queue (poll_single_feed L A now fd fetched w) = queue w) \<and>
   (get_setting w ''moderation_enabled'' \<noteq> Some ''true'' \<longrightarrow>
      length (queue (poll_single_feed L A now fd fetched w)) + length (items w) =
      length (items (poll_single_feed L A now fd fetched w)) + length (queue w))"
proof (intro conjI impI)
  assume n: "items (ingest_item L A now fd fi w) \<noteq> items w"
  from ingest_item_new [OF n]
  show "\<exists>it. items (ingest_item L A now fd fi w) = items w @ [it] \<and>
         (get_setting w ''moderation_enabled'' = Some ''true'' \<longrightarrow>
            queue (ingest_item L A now fd fi w) = queue w \<and>
            (A \<noteq> [] \<longrightarrow> moderation_previews (ingest_item L A now fd fi w) =
                         moderation_previews w @ [(id_i it, A)])) \<and>
         (get_setting w ''moderation_enabled'' \<noteq> Some ''true'' \<longrightarrow>
            moderation_previews (ingest_item L A now fd fi w) = moderation_previews w \<and>
            (\<exists>q. queue (ingest_item L A now fd fi w) = queue w @ [q] \<and> item_id q = id_i it \<and>
                 status q = ''pending'' \<and> attempts q = 0 \<and> type_q q = ''post'' \<and>
                 scheduled_at q = None))"
    by (auto split: if_splits)
next
  assume "get_setting w ''moderation_enabled'' = Some ''true''"
  then show "queue (poll_single_feed L A now fd fetched w) = queue w"
    using fold_ingest_counts [of w L A now fd]
    by (cases fetched) (simp add: poll_single_feed_def mark_feed_ok_def mark_feed_error_def)
next
  assume "get_setting w ''moderation_enabled'' \<noteq> Some ''true''"
  then show "length (queue (poll_single_feed L A now fd fetched w)) + length (items w) =
      length (items (poll_single_feed L A now fd fetched w)) + length (queue w)"
    using fold_ingest_counts [of w L A now fd]
    by (cases fetched) (simp add: poll_single_feed_def mark_feed_ok_def mark_feed_error_def)
qed

text \<open>The same new entry with moderation off and with moderation on.\<close>

lemma new_entry_stored:
  "items (ingest_item plain_lib [7] 100 news_feed (raw_entry ''g2'') (empty_world m)) \<noteq>
   items (empty_world m)"
proof -
  have e: "utf8_encode (ascii ''TitleSummaryBody'') = Some (map of_nat (ascii ''TitleSummaryBody''))"
    by (simp add: ascii_def utf8_char_def)
  have h: "content_hash (normalize_item plain_lib (to_dict (raw_entry ''g2'') 1)) \<noteq> None"
    using hash_content_ascii [OF e]
    by (simp add: normalize_item_def to_dict_def raw_entry_def plain_lib_def normalize_title_def
          normalize_summary_def normalize_content_def remove_html_tags_def fix_typography_def
          html_to_markdown_def clean_markdown_def add_utm_parameters_def Let_def ascii_def)
  show ?thesis
    using h
    by (auto simp: ingest_item_def Let_def empty_world_def news_feed_def add_to_queue_def
          send_to_moderation_def split: option.splits)
qed

theorem moderation_gate_witness:
  "get_setting (empty_world ''false'') ''moderation_enabled'' = Some ''false'' \<and>
   get_setting (empty_world ''true'') ''moderation_enabled'' = Some ''true'' \<and>
   length (items (ingest_item plain_lib [7] 100 news_feed (raw_entry ''g2'') (empty_world ''false''))) = 1 \<and>
   map status (queue (ingest_item plain_lib [7] 100 news_feed (raw_entry ''g2'') (empty_world ''false'')))
     = [''pending''] \<and>
   moderation_previews (ingest_item plain_lib [7] 100 news_feed (raw_entry ''g2'') (empty_world ''false''))
     = [] \<and>
   length (items (ingest_item plain_lib [7] 100 news_feed (raw_entry ''g2'') (empty_world ''true''))) = 1 \<and>
   queue (ingest_item plain_lib [7] 100 news_feed (raw_entry ''g2'') (empty_world ''true'')) = [] \<and>
   length (moderation_previews
     (ingest_item plain_lib [7] 100 news_feed (raw_entry ''g2'') (empty_world ''true''))) = 1"
proof -
  have f: "get_setting (empty_world ''false'') ''moderation_enabled'' = Some ''false''"
    and t: "get_setting (empty_world ''true'') ''moderation_enabled'' = Some ''true''"
    by (simp_all add: get_setting_def empty_world_def)
  have w: "items (empty_world m) = []" "queue (empty_world m) = []"
    "moderation_previews (empty_world m) = []" for m
    by (simp_all add: empty_world_def)
  note off = moderation_gate [where L = plain_lib and A = "[7]" and now = 100 and fd = news_feed
      and fi = "raw_entry ''g2''" and w = "empty_world ''false''"
      and fetched = "(True, [raw_entry ''g2''], [])", THEN conjunct1]
  note on = moderation_gate [where L = plain_lib and A = "[7]" and now = 100 and fd = news_feed
      and fi = "raw_entry ''g2''" and w = "empty_world ''true''"
      and fetched = "(True, [raw_entry ''g2''], [])", THEN conjunct1]
  have a: "length (items (ingest_item plain_lib [7] 100 news_feed (raw_entry ''g2'') (empty_world ''false''))) = 1 \<and>
    map status (queue (ingest_item plain_lib [7] 100 news_feed (raw_entry ''g2'') (empty_world ''false'')))
      = [''pending''] \<and>
    moderation_previews (ingest_item plain_lib [7] 100 news_feed (raw_entry ''g2'') (empty_world ''false''))
      = []"
    using off new_entry_stored [of "''false''"] f by (auto simp: w)
  have b: "length (items (ingest_item plain_lib [7] 100 news_feed (raw_entry ''g2'') (empty_world ''true''))) = 1 \<and>
    queue (ingest_item plain_lib [7] 100 news_feed (raw_entry ''g2'') (empty_world ''true'')) = [] \<and>
    length (moderation_previews
      (ingest_item plain_lib [7] 100 news_feed (raw_entry ''g2'') (empty_world ''true''))) = 1"
    using on new_entry_stored [of "''true''"] t by (auto simp: w)
  show ?thesis
    using a b f t by simp
qed

subsection \<open>Content fingerprint\<close>

lemma hex_digit_ok: "n < 16 \<Longrightarrow> is_hex_digit (hex_digit n)"
  by (auto simp: hex_digit_def is_hex_digit_def)

lemma nibble_less: "unat ((x :: 32 word) AND 15) < 16"
proof -
  have "x AND 15 \<le> 15"
    by (rule word_and_le1)
  then have "unat (x AND 15) \<le> unat (15 :: 32 word)"
    by (simp add: word_le_nat_alt)
  then show ?thesis by simp
qed

lemma hex_word_length: "length (hex_word x) = 8"
  by (simp add: hex_word_def)

lemma hex_word_digits: "c \<in> set (hex_word x) \<Longrightarrow> is_hex_digit c"
  by (auto simp: hex_word_def intro!: hex_digit_ok nibble_less)

lemma hexdigest_length: "length (hexdigest s) = 64"
  by (simp add: hexdigest_def hex_word_length split: prod.splits)

lemma hexdigest_digits: "c \<in> set (hexdigest s) \<Longrightarrow> is_hex_digit c"
  by (auto simp: hexdigest_def split: prod.splits dest: hex_word_digits)

text \<open>The text fields of a normalized dictionary, and its fingerprint.\<close>

lemma normalize_item_text:
  "title (normalize_item L d) = normalize_title L (title d)"
  "summary (normalize_item L d) = normalize_summary L (summary d)"
  "content (normalize_item L d) = normalize_content L (content d)"
  by (simp_all add: normalize_item_def Let_def split: option.splits)

lemma normalize_item_hash:
  "content_hash d = None \<Longrightarrow>
   content_hash (normalize_item L d) =
     hash_content (normalize_title L (title d) @ normalize_summary L (summary d) @
                   normalize_content L (content d))"
  by (simp add: normalize_item_def Let_def split: option.splits)

lemma to_dict_fields:
  "content_hash (to_dict fi k) = None" "title (to_dict fi k) = title fi"
  "summary (to_dict fi k) = summary fi" "content (to_dict fi k) = content fi"
  by (simp_all add: to_dict_def)

lemma plain_text_fields:
  "normalize_title plain_lib (ascii ''Title'') = ascii ''Title''"
  "normalize_summary plain_lib (ascii ''Summary'') = ascii ''Summary''"
  "normalize_content plain_lib (ascii ''Body'') = ascii ''Body''"
  by (simp_all add: plain_lib_def normalize_title_def normalize_summary_def
        normalize_content_def remove_html_tags_def fix_typography_def html_to_markdown_def
        clean_markdown_def Let_def ascii_def)

text \<open>
  Claim C6. The fingerprint of a normalized entry is the SHA-256, in hexadecimal,
  of the UTF-8 encoding of its normalized title, summary and content joined in that
  order, and of nothing else: two entries, of whatever feeds, whose joined texts are
  equal have equal fingerprints. A fingerprint is 64 lower-case hexadecimal digits.
\<close>

theorem fingerprint_of_text:
  "content_hash (normalize_item L (to_dict a fa)) =
     hash_content (title (normalize_item L (to_dict a fa)) @
                   summary (normalize_item L (to_dict a fa)) @
                   content (normalize_item L (to_dict a fa))) \<and>
   (title (normalize_item L (to_dict a fa)) @ summary (normalize_item L (to_dict a fa)) @
      content (normalize_item L (to_dict a fa)) =
    title (normalize_item L (to_dict b fb)) @ summary (normalize_item L (to_dict b fb)) @
      content (normalize_item L (to_dict b fb)) \<longrightarrow>
    content_hash (normalize_item L (to_dict a fa)) = content_hash (normalize_item L (to_dict b fb))) \<and>
   (content_hash (normalize_item L (to_dict a fa)) = Some h \<longrightarrow>
      length h = 64 \<and> (\<forall>c\<in>set h. is_hex_digit c))"
proof -
  have eq: "content_hash (normalize_item L (to_dict x k)) =
     hash_content (title (normalize_item L (to_dict x k)) @
                   summary (normalize_item L (to_dict x k)) @
                   content (normalize_item L (to_dict x k)))" for x k
    by (simp add: normalize_item_text normalize_item_hash to_dict_fields)
  have hex: "length h = 64 \<and> (\<forall>c\<in>set h. is_hex_digit c)" if "hash_content s = Some h" for s
    using that by (auto simp: hash_content_def hexdigest_length dest: hexdigest_digits)
  show ?thesis
    using eq [of a fa] eq [of b fb] hex by metis
qed

theorem fingerprint_of_text_witness:
  "link (normalize_item plain_lib (to_dict (raw_entry ''g1'') 1)) \<noteq>
     link (normalize_item plain_lib (to_dict (mirrored_entry ''g9'') 2)) \<and>
   title (normalize_item plain_lib (to_dict (raw_entry ''g1'') 1)) @
     summary (normalize_item plain_lib (to_dict (raw_entry ''g1'') 1)) @
     content (normalize_item plain_lib (to_dict (raw_entry ''g1'') 1)) =
   title (normalize_item plain_lib (to_dict (mirrored_entry ''g9'') 2)) @
     summary (normalize_item plain_lib (to_dict (mirrored_entry ''g9'') 2)) @
     content (normalize_item plain_lib (to_dict (mirrored_entry ''g9'') 2)) \<and>
   content_hash (normalize_item plain_lib (to_dict (raw_entry ''g1'') 1)) =
     content_hash (normalize_item plain_lib (to_dict (mirrored_entry ''g9'') 2)) \<and>
   content_hash (normalize_item plain_lib (to_dict (raw_entry ''g1'') 1)) =
     Some (hexdigest (sha256 (map of_nat (ascii ''TitleSummaryBody'')))) \<and>
   length (hexdigest (sha256 (map of_nat (ascii ''TitleSummaryBody'')))) = 64"
proof -
  let ?a = "normalize_item plain_lib (to_dict (raw_entry ''g1'') 1)"
  let ?b = "normalize_item plain_lib (to_dict (mirrored_entry ''g9'') 2)"
  have ta: "title ?a @ summary ?a @ content ?a = ascii ''TitleSummaryBody''"
    by (simp add: normalize_item_text to_dict_fields raw_entry_def plain_text_fields)
       (simp add: ascii_def)
  have tb: "title ?b @ summary ?b @ content ?b = ascii ''TitleSummaryBody''"
    by (simp add: normalize_item_text to_dict_fields raw_entry_def mirrored_entry_def
          plain_text_fields)
       (simp add: ascii_def)
  have e: "utf8_encode (ascii ''TitleSummaryBody'') = Some (map of_nat (ascii ''TitleSummaryBody''))"
    by (simp add: ascii_def utf8_char_def)
  have l: "link ?a \<noteq> link ?b"
    by (simp add: normalize_item_def Let_def to_dict_def raw_entry_def mirrored_entry_def
          add_utm_parameters_def plain_lib_def ascii_def split: option.splits)
  note th = fingerprint_of_text [where L = plain_lib and a = "raw_entry ''g1''" and fa = 1
      and b = "mirrored_entry ''g9''" and fb = 2
      and h = "hexdigest (sha256 (map of_nat (ascii ''TitleSummaryBody'')))"]
  have h: "content_hash ?a = Some (hexdigest (sha256 (map of_nat (ascii ''TitleSummaryBody''))))"
    using th [THEN conjunct1] e unfolding ta by (simp add: hash_content_def)
  have c: "content_hash ?a = content_hash ?b"
    using th [THEN conjunct2, THEN conjunct1] ta tb by simp
  have n: "length (hexdigest (sha256 (map of_nat (ascii ''TitleSummaryBody'')))) = 64"
    using th [THEN conjunct2, THEN conjunct2] h by blast
  show ?thesis
    using l h c n unfolding ta tb by blast
qed

subsection \<open>Fetching and parsing\<close>






















subsection \<open>Digest\<close>

text \<open>
  Claim C7. A digest cycle for which no item lies in the last 24 hours makes no
  call to the publisher, lets no exception out and leaves the state as it is. This
  holds whether or not the model \<open>Item\<close> has the column the query orders by; with
  the column the \<open>try\<close> block ends without an exception, and without it (as in
  \<open>database.py\<close>) the block raises before reading any row and the handler absorbs
  the exception.
\<close>

theorem empty_digest_noop:
  "(filter (\<lambda>i. created_at_i i \<ge> now - 86400) (items w) = [] \<longrightarrow>
      create_digest_with col T now w = (None, w) \<and>
      delivery_calls (snd (create_digest_with col T now w)) = delivery_calls w \<and>
      create_digest T now w = (None, w) \<and>
      delivery_calls (snd (create_digest T now w)) = delivery_calls w \<and>
      (col \<noteq> None \<longrightarrow> create_digest_body col T now w = Inr w)) \<and>
   fst (create_digest_with col T now w) = None \<and>
   fst (create_digest T now w) = None"
proof -
  have n: "fst (create_digest_with c T now w) = None" for c
    by (simp add: create_digest_with_def split: sum.splits)
  have e: "create_digest_with c T now w = (None, w) \<and> (c \<noteq> None \<longrightarrow> create_digest_body c T now w = Inr w)"
    if "filter (\<lambda>i. created_at_i i \<ge> now - 86400) (items w) = []" for c
    using that
    by (cases c) (simp_all add: create_digest_with_def create_digest_body_def Let_def)
  show ?thesis
    using n e by (simp add: create_digest_def)
qed

theorem empty_digest_noop_witness:
  "filter (\<lambda>i. created_at_i i \<ge> forty_days - 86400) (items aged_world) = [] \<and>
   content_length_column \<noteq> None \<and>
   create_digest_with content_length_column telegram_up forty_days aged_world = (None, aged_world) \<and>
   create_digest_body content_length_column telegram_up forty_days aged_world = Inr aged_world \<and>
   create_digest telegram_up forty_days aged_world = (None, aged_world) \<and>
   delivery_calls (snd (create_digest telegram_up forty_days aged_world)) = []"
proof -
  have f: "filter (\<lambda>i. created_at_i i \<ge> forty_days - 86400) (items aged_world) = []"
    by (simp add: aged_world_def stored_item_def forty_days_def)
  have c: "content_length_column \<noteq> None"
    by (simp add: content_length_column_def)
  have d: "delivery_calls aged_world = []"
    by (simp add: aged_world_def)
  show ?thesis
    using empty_digest_noop [of forty_days aged_world content_length_column telegram_up] f c d
    by simp
qed

subsection \<open>Retention cleanup\<close>

lemma filter_by_key:
  "distinct (map f xs) \<Longrightarrow>
   filter (\<lambda>x. f x \<notin> set (map f (filter P xs))) xs = filter (\<lambda>x. \<not> P x) xs"
proof -
  assume d: "distinct (map f xs)"
  have "f x \<notin> f ` {y \<in> set xs. P y} \<longleftrightarrow> \<not> P x" if "x \<in> set xs" for x
  proof
    assume "f x \<notin> f ` {y \<in> set xs. P y}"
    with that show "\<not> P x" by blast
  next
    assume np: "\<not> P x"
    show "f x \<notin> f ` {y \<in> set xs. P y}"
    proof
      assume "f x \<in> f ` {y \<in> set xs. P y}"
      then obtain y where y: "y \<in> set xs" "P y" "f x = f y" by blast
      with d that have "x = y" by (simp add: distinct_map inj_on_def)
      with y np show False by simp
    qed
  qed
  then show ?thesis
    by (intro filter_cong) auto
qed

lemma cleanup_body_failure:
  "fails st = Some e \<Longrightarrow> \<exists>e'. cleanup_body fails now w = Inl e'"
  by (cases st)
     (auto simp: cleanup_body_def store_step_def Let_def split: option.splits)

lemma cleanup_body_success:
  "\<forall>st. fails st = None \<Longrightarrow>
   cleanup_body fails now w =
     Inr (delete_marked
           (filter (\<lambda>i. created_at_i i < now - 30 * 86400) (items w))
           (filter (\<lambda>q. created_at_q q < now - 7 * 86400 \<and>
                         status q \<in> set [''completed'', ''failed'']) (queue w))
           (filter (\<lambda>p. posted_at p < now - 30 * 86400) (publishes w)) w)"
  by (simp add: cleanup_body_def store_step_def Let_def)

text \<open>
  Claim C8, as amended. The three purges of the cleanup cycle are one transaction
  with one commit. When the store raises at none of its steps, all three take
  effect together: the items older than 30 days go, and with them their queue rows
  and publication records; the \<open>completed\<close> and \<open>failed\<close> queue rows older than 7
  days go; the publication records older than 30 days go. When the store raises at
  any step (a query or the commit), nothing is purged and the state is as before.
\<close>

theorem cleanup_all_or_nothing:
  "((\<forall>st. fails st = None) \<longrightarrow>
      distinct (map id_i (items w)) \<longrightarrow> distinct (map id_q (queue w)) \<longrightarrow>
      distinct (map id_p (publishes w)) \<longrightarrow>
      items (cleanup_old_data fails now w) =
        filter (\<lambda>i. \<not> created_at_i i < now - 30 * 86400) (items w) \<and>
      queue (cleanup_old_data fails now w) =
        filter (\<lambda>q. \<not> (created_at_q q < now - 7 * 86400 \<and>
                        (status q = ''completed'' \<or> status q = ''failed'')) \<and>
                    item_id q \<notin> id_i ` {i \<in> set (items w). created_at_i i < now - 30 * 86400})
          (queue w) \<and>
      publishes (cleanup_old_data fails now w) =
        filter (\<lambda>p. \<not> posted_at p < now - 30 * 86400 \<and>
                    item_id_p p \<notin> id_i ` {i \<in> set (items w). created_at_i i < now - 30 * 86400})
          (publishes w)) \<and>
   ((\<exists>st. fails st \<noteq> None) \<longrightarrow> cleanup_old_data fails now w = w)"
proof (intro conjI impI)
  assume "\<exists>st. fails st \<noteq> None"
  then obtain st e where "fails st = Some e" by auto
  then show "cleanup_old_data fails now w = w"
    using cleanup_body_failure [of fails st e now w] by (auto simp: cleanup_old_data_def)
next
  assume ok: "\<forall>st. fails st = None"
    and di: "distinct (map id_i (items w))" and dq: "distinct (map id_q (queue w))"
    and dp: "distinct (map id_p (publishes w))"
  let ?oi = "filter (\<lambda>i. created_at_i i < now - 30 * 86400) (items w)"
  let ?oq = "filter (\<lambda>q. created_at_q q < now - 7 * 86400 \<and>
                         status q \<in> set [''completed'', ''failed'']) (queue w)"
  let ?op = "filter (\<lambda>p. posted_at p < now - 30 * 86400) (publishes w)"
  have c: "cleanup_old_data fails now w = delete_marked ?oi ?oq ?op w"
    using cleanup_body_success [OF ok, of now w] by (simp add: cleanup_old_data_def)
  show "items (cleanup_old_data fails now w) =
        filter (\<lambda>i. \<not> created_at_i i < now - 30 * 86400) (items w)"
    unfolding c using filter_by_key [OF di] by (simp add: delete_marked_def)
  have q1: "filter (\<lambda>q. id_q q \<notin> set (map id_q ?oq)) (queue w) =
            filter (\<lambda>q. \<not> (created_at_q q < now - 7 * 86400 \<and>
                     status q \<in> set [''completed'', ''failed''])) (queue w)"
    by (rule filter_by_key [OF dq])
  have "queue (cleanup_old_data fails now w) =
          filter (\<lambda>q. item_id q \<notin> set (map id_i ?oi))
            (filter (\<lambda>q. id_q q \<notin> set (map id_q ?oq)) (queue w))"
    unfolding c by (simp add: delete_marked_def conj_commute)
  then show "queue (cleanup_old_data fails now w) =
        filter (\<lambda>q. \<not> (created_at_q q < now - 7 * 86400 \<and>
                        (status q = ''completed'' \<or> status q = ''failed'')) \<and>
                    item_id q \<notin> id_i ` {i \<in> set (items w). created_at_i i < now - 30 * 86400})
          (queue w)"
    unfolding q1 by (simp add: conj_commute)
  have p1: "filter (\<lambda>p. id_p p \<notin> set (map id_p ?op)) (publishes w) =
            filter (\<lambda>p. \<not> posted_at p < now - 30 * 86400) (publishes w)"
    by (rule filter_by_key [OF dp])
  have "publishes (cleanup_old_data fails now w) =
          filter (\<lambda>p. item_id_p p \<notin> set (map id_i ?oi))
            (filter (\<lambda>p. id_p p \<notin> set (map id_p ?op)) (publishes w))"
    unfolding c by (simp add: delete_marked_def conj_commute)
  then show "publishes (cleanup_old_data fails now w) =
        filter (\<lambda>p. \<not> posted_at p < now - 30 * 86400 \<and>
                    item_id_p p \<notin> id_i ` {i \<in> set (items w). created_at_i i < now - 30 * 86400})
          (publishes w)"
    unfolding p1 by (simp add: conj_commute)
qed

lemma aged_world_distinct:
  "distinct (map id_i (items aged_world))" "distinct (map id_q (queue aged_world))"
  "distinct (map id_p (publishes aged_world))"
  by (simp_all add: aged_world_def queue_row_def)

theorem cleanup_all_or_nothing_witness:
  "no_failure QueryItems = None \<and> no_failure QueryQueue = None \<and>
   no_failure QueryPublishes = None \<and> no_failure Commit = None \<and>
   publishes_query_fails QueryPublishes \<noteq> None \<and>
   distinct (map id_i (items aged_world)) \<and> distinct (map id_q (queue aged_world)) \<and>
   distinct (map id_p (publishes aged_world)) \<and>
   items (cleanup_old_data no_failure forty_days aged_world) = [] \<and>
   queue (cleanup_old_data no_failure forty_days aged_world) = [] \<and>
   publishes (cleanup_old_data no_failure forty_days aged_world) = [] \<and>
   cleanup_old_data publishes_query_fails forty_days aged_world = aged_world"
proof -
  have n: "\<forall>st. no_failure st = None"
    by (simp add: no_failure_def)
  have p: "\<exists>st. publishes_query_fails st \<noteq> None"
    by (rule exI [of _ QueryPublishes]) (simp add: publishes_query_fails_def)
  note th = cleanup_all_or_nothing [where fails = no_failure and now = forty_days
      and w = aged_world]
  have ok: "items (cleanup_old_data no_failure forty_days aged_world) =
        filter (\<lambda>i. \<not> created_at_i i < forty_days - 30 * 86400) (items aged_world) \<and>
      queue (cleanup_old_data no_failure forty_days aged_world) =
        filter (\<lambda>q. \<not> (created_at_q q < forty_days - 7 * 86400 \<and>
                        (status q = ''completed'' \<or> status q = ''failed'')) \<and>
                    item_id q \<notin> id_i ` {i \<in> set (items aged_world).
                                          created_at_i i < forty_days - 30 * 86400})
          (queue aged_world) \<and>
      publishes (cleanup_old_data no_failure forty_days aged_world) =
        filter (\<lambda>p. \<not> posted_at p < forty_days - 30 * 86400 \<and>
                    item_id_p p \<notin> id_i ` {i \<in> set (items aged_world).
                                            created_at_i i < forty_days - 30 * 86400})
          (publishes aged_world)"
    using th n aged_world_distinct by blast
  have ko: "cleanup_old_data publishes_query_fails forty_days aged_world = aged_world"
    using cleanup_all_or_nothing [where fails = publishes_query_fails and now = forty_days
      and w = aged_world] p by blast
  have i: "items (cleanup_old_data no_failure forty_days aged_world) = []"
    using ok by (simp add: aged_world_def stored_item_def forty_days_def)
  have q: "queue (cleanup_old_data no_failure forty_days aged_world) = []"
    using ok by (simp add: aged_world_def stored_item_def forty_days_def queue_row_def)
  have r: "publishes (cleanup_old_data no_failure forty_days aged_world) = []"
    using ok by (simp add: aged_world_def stored_item_def forty_days_def)
  have f: "publishes_query_fails QueryPublishes \<noteq> None"
    by (simp add: publishes_query_fails_def)
  show ?thesis
    using n f aged_world_distinct i q r ko by blast
qed

text \<open>
  Claim C8 as stated fails when the query for old publication records raises: the
  old item and the old terminal queue rows, which go when nothing raises, stay.
\<close>

theorem cleanup_failure_blocks_other_purges:
  "items (cleanup_old_data no_failure forty_days aged_world) = [] \<and>
   queue (cleanup_old_data no_failure forty_days aged_world) = [] \<and>
   items (cleanup_old_data publishes_query_fails forty_days aged_world) = [stored_item] \<and>
   length (queue (cleanup_old_data publishes_query_fails forty_days aged_world)) = 2"
  by (simp add: cleanup_old_data_def cleanup_body_def store_step_def delete_marked_def
        no_failure_def publishes_query_fails_def aged_world_def stored_item_def forty_days_def
        queue_row_def Let_def)

subsection \<open>Polling across a restart\<close>

lemma rss_selects_xml:
  "\<not> str_in (ascii ''json'') (str_lower plain_lib (ascii ''application/rss+xml''))"
  "str_in (ascii ''xml'') (str_lower plain_lib (ascii ''application/rss+xml''))"
  "\<not> suffix (ascii ''.json'') (url_fd news_feed)"
  by (simp_all add: str_in_def plain_lib_def ascii_def sublist_Cons_right suffix_Cons
        news_feed_def)

lemma bare_channel_fetched:
  "fetch_feed plain_lib now (url_fd news_feed) (bare_channel P) =
     (True, [entry_item plain_lib P (url_fd news_feed) (ascii ''Example'') bare_entry], [])"
  using rss_selects_xml
  by (simp add: bare_channel_def fetch_feed_def Let_def parse_xml_feed_def feed_body_def)

lemma bare_entry_guid:
  "guid (entry_item plain_lib first_run u ft bare_entry) = ascii ''-2950624490791912696''"
  "guid (entry_item plain_lib second_run u ft bare_entry) = ascii ''6274576018921423682''"
  by (simp_all add: entry_item_def extract_guid_def extract_link_def bare_entry_def first_run_def
        second_run_def str_of_int_def digits_step ascii_def Let_def)

lemma bare_entry_text:
  "title (entry_item plain_lib P u ft bare_entry) = ascii ''Hello''"
  "summary (entry_item plain_lib P u ft bare_entry) = ascii ''World''"
  "content (entry_item plain_lib P u ft bare_entry) = ascii ''World''"
  by (simp_all add: entry_item_def bare_entry_def clean_text_def plain_lib_def ascii_def)

lemma bare_entry_hash:
  "content_hash (normalize_item plain_lib (to_dict (entry_item plain_lib P u ft bare_entry) k)) =
     Some (hexdigest (sha256 (map of_nat (ascii ''HelloWorldWorld''))))"
proof -
  have n: "normalize_title plain_lib (ascii ''Hello'') = ascii ''Hello''"
    "normalize_summary plain_lib (ascii ''World'') = ascii ''World''"
    "normalize_content plain_lib (ascii ''World'') = ascii ''World''"
    by (simp_all add: plain_lib_def normalize_title_def normalize_summary_def
          normalize_content_def remove_html_tags_def fix_typography_def html_to_markdown_def
          clean_markdown_def Let_def ascii_def)
  have e: "utf8_encode (ascii ''Hello'' @ ascii ''World'' @ ascii ''World'') =
             Some (map of_nat (ascii ''HelloWorldWorld''))"
    by (simp add: ascii_def utf8_char_def)
  show ?thesis
    by (simp add: normalize_item_hash to_dict_fields bare_entry_text n hash_content_ascii [OF e])
qed

text \<open>What the gate does with an entry whose key it does not find, moderation off.\<close>

lemma ingest_item_stores:
  assumes "find (\<lambda>i. feed_id_i i = id_fd fd \<and> guid_i i = guid fi) (items w) = None"
    and "content_hash (normalize_item L (to_dict fi (id_fd fd))) = Some h"
    and "get_setting w ''moderation_enabled'' \<noteq> Some ''true''"
  shows "items (ingest_item L A now fd fi w) =
           items w @ [new_db_item now fd (normalize_item L (to_dict fi (id_fd fd))) h w] \<and>
         length (queue (ingest_item L A now fd fi w)) = Suc (length (queue w))"
  using assms
  by (simp add: ingest_item_def Let_def get_setting_def add_to_queue_def)

lemma new_db_item_fields:
  "guid_i (new_db_item now fd n h w) = guid n" "content_hash_i (new_db_item now fd n h w) = h"
  "feed_id_i (new_db_item now fd n h w) = id_fd fd"
  by (simp_all add: new_db_item_def)

lemma poll_feed_one:
  "fetch_feed L now (url_fd fd) r = (True, [fi], e) \<Longrightarrow>
   items (poll_feed L A now fd r w) = items (ingest_item L A now fd fi w) \<and>
   queue (poll_feed L A now fd r w) = queue (ingest_item L A now fd fi w) \<and>
   settings (poll_feed L A now fd r w) = settings (ingest_item L A now fd fi w)"
  by (simp add: poll_feed_def poll_single_feed_def mark_feed_ok_def)

text \<open>
  Claim C1 fails across a restart of the program. A channel holds one entry without
  \<open>guid\<close> or \<open>link\<close>. The first process polls it, stores the entry under the GUID
  its salted hash gives, and queues it. Polled again by the same process, the
  unchanged channel adds nothing. Polled by the next process, whose hash is salted
  differently, the unchanged channel yields another GUID: the gate does not find
  it, and the same entry, with the same fingerprint, is stored and queued a second
  time.
\<close>

theorem restart_stores_entry_again:
  "map guid_i (items (poll_feed plain_lib [] 100 news_feed (bare_channel first_run)
                        (empty_world ''false''))) = [ascii ''-2950624490791912696''] \<and>
   length (queue (poll_feed plain_lib [] 100 news_feed (bare_channel first_run)
                    (empty_world ''false''))) = 1 \<and>
   items (poll_feed plain_lib [] 700 news_feed (bare_channel first_run)
            (poll_feed plain_lib [] 100 news_feed (bare_channel first_run)
               (empty_world ''false''))) =
     items (poll_feed plain_lib [] 100 news_feed (bare_channel first_run) (empty_world ''false'')) \<and>
   map guid_i (items (poll_feed plain_lib [] 700 news_feed (bare_channel second_run)
                        (poll_feed plain_lib [] 100 news_feed (bare_channel first_run)
                           (empty_world ''false'')))) =
     [ascii ''-2950624490791912696'', ascii ''6274576018921423682''] \<and>
   map content_hash_i (items (poll_feed plain_lib [] 700 news_feed (bare_channel second_run)
                        (poll_feed plain_lib [] 100 news_feed (bare_channel first_run)
                           (empty_world ''false'')))) =
     [hexdigest (sha256 (map of_nat (ascii ''HelloWorldWorld''))),
      hexdigest (sha256 (map of_nat (ascii ''HelloWorldWorld'')))] \<and>
   length (queue (poll_feed plain_lib [] 700 news_feed (bare_channel second_run)
                    (poll_feed plain_lib [] 100 news_feed (bare_channel first_run)
                       (empty_world ''false'')))) = 2"
proof -
  let ?a = "entry_item plain_lib first_run (url_fd news_feed) (ascii ''Example'') bare_entry"
  let ?b = "entry_item plain_lib second_run (url_fd news_feed) (ascii ''Example'') bare_entry"
  let ?h = "hexdigest (sha256 (map of_nat (ascii ''HelloWorldWorld'')))"
  define w0 where "w0 = empty_world ''false''"
  define w1 where "w1 = poll_feed plain_lib [] 100 news_feed (bare_channel first_run) w0"
  define w2 where "w2 = poll_feed plain_lib [] 700 news_feed (bare_channel second_run) w1"
  have m0: "get_setting w0 ''moderation_enabled'' \<noteq> Some ''true''"
    "items w0 = []" "queue w0 = []"
    by (simp_all add: w0_def empty_world_def get_setting_def)
  have s1: "items (ingest_item plain_lib [] 100 news_feed ?a w0) =
              items w0 @ [new_db_item 100 news_feed (normalize_item plain_lib (to_dict ?a (id_fd news_feed))) ?h w0] \<and>
            length (queue (ingest_item plain_lib [] 100 news_feed ?a w0)) = Suc (length (queue w0))"
    by (rule ingest_item_stores) (simp_all add: m0 bare_entry_hash)
  have p1: "items w1 = items (ingest_item plain_lib [] 100 news_feed ?a w0)"
    "queue w1 = queue (ingest_item plain_lib [] 100 news_feed ?a w0)"
    "settings w1 = settings (ingest_item plain_lib [] 100 news_feed ?a w0)"
    unfolding w1_def using poll_feed_one [OF bare_channel_fetched] by blast+
  have i1: "items w1 = [new_db_item 100 news_feed (normalize_item plain_lib (to_dict ?a (id_fd news_feed))) ?h w0]"
    and q1: "length (queue w1) = 1"
    using s1 p1 by (simp_all add: m0)
  have g1: "map guid_i (items w1) = [ascii ''-2950624490791912696'']"
    by (simp add: i1 new_db_item_fields guid_normalize_item to_dict_guid bare_entry_guid)
  have m1: "get_setting w1 ''moderation_enabled'' \<noteq> Some ''true''"
    using m0 get_setting_cong [of w1 w0] p1(3) settings_ingest_item [of plain_lib "[]" 100 news_feed ?a w0]
    by simp
  have f2: "find (\<lambda>i. feed_id_i i = id_fd news_feed \<and> guid_i i = guid ?b) (items w1) = None"
    by (simp add: i1 new_db_item_fields guid_normalize_item to_dict_guid bare_entry_guid ascii_def)
  have s2: "items (ingest_item plain_lib [] 700 news_feed ?b w1) =
              items w1 @ [new_db_item 700 news_feed (normalize_item plain_lib (to_dict ?b (id_fd news_feed))) ?h w1] \<and>
            length (queue (ingest_item plain_lib [] 700 news_feed ?b w1)) = Suc (length (queue w1))"
    by (rule ingest_item_stores) (simp_all add: f2 m1 bare_entry_hash)
  have p2: "items w2 = items (ingest_item plain_lib [] 700 news_feed ?b w1)"
    "queue w2 = queue (ingest_item plain_lib [] 700 news_feed ?b w1)"
    unfolding w2_def using poll_feed_one [OF bare_channel_fetched] by blast+
  have g2: "map guid_i (items w2) = [ascii ''-2950624490791912696'', ascii ''6274576018921423682'']"
    using g1 by (simp add: p2 s2 new_db_item_fields guid_normalize_item to_dict_guid bare_entry_guid)
  have h2: "map content_hash_i (items w2) = [?h, ?h]"
    by (simp add: p2 s2 i1 new_db_item_fields)
  have q2: "length (queue w2) = 2"
    using q1 by (simp add: p2 s2)
  have same: "items (poll_feed plain_lib [] 700 news_feed (bare_channel first_run) w1) = items w1"
    unfolding w1_def poll_feed_def bare_channel_fetched
    using second_poll [of plain_lib "[]" 700 news_feed
        "(True, [?a], [])" 100 w0]
    by simp
  show ?thesis
    using g1 q1 same g2 h2 q2 unfolding w2_def w1_def w0_def by blast
qed

end
